theory Spec2Isabelle
  imports Main "HOL-Library.Monad_Syntax"
begin

section \<open>The world the two orchestrators run in\<close>

text \<open>
  The repository holds two orchestrators: \<^verbatim>\<open>scripts/agentflow.py\<close> (cursor based, with
  \<^verbatim>\<open>run_task\<close>) and \<^verbatim>\<open>scripts/agent_csv_runner.py\<close> (row based, everything in
  \<^verbatim>\<open>main\<close>). Both poll two marker files, spawn external processes and write files.
  Everything outside the Python code is an explicit value here:
  \<^item> the two marker files are two booleans of the world;
  \<^item> time is a counter that advances with every \<^verbatim>\<open>time.sleep\<close> and every spawned
    process; whoever sits outside the program (a person creating or deleting a marker)
    acts at those moments, through the function \<open>user\<close> of the environment;
  \<^item> a spawned process is the function \<open>proc\<close> of the environment: what the command
    answers at a given time; the world keeps the list of the commands spawned so far.
\<close>

record markers =
  pause_exists :: bool
  stop_exists :: bool

record world =
  clock :: nat
  marks :: markers
  files :: "string \<rightharpoonup> string"
  spawned :: "string list list"

text \<open>What a spawned process answers: its exit code, the lines of its standard output
  as the reader iterates them (each with its line end), its standard error, and the files
  it wrote (path and content).\<close>

record proc_out =
  po_rc :: int
  po_lines :: "string list"
  po_err :: string
  po_wrote :: "(string \<times> string) list"

text \<open>JSON values as \<^verbatim>\<open>json.loads\<close> returns them; an object is the list of the items
  of the resulting dict. Numbers are the integers.\<close>

datatype json =
    JNull
  | JBool bool
  | JInt int
  | JStr string
  | JArr "json list"
  | JObj "(string \<times> json) list"

section \<open>agentflow.py: data\<close>

text \<open>\<^verbatim>\<open>Task\<close>; the optional per-row engine is \<open>task_engine\<close>.\<close>

record Task =
  task_id :: string
  spec :: string
  title :: string
  task_engine :: "string option"

text \<open>\<^verbatim>\<open>RunResult\<close> of agentflow; its \<^verbatim>\<open>session_id\<close> is \<open>result_session_id\<close>.\<close>

record RunResult =
  engine :: string
  ok :: bool
  exit_code :: int
  stdout :: string
  assistant_text :: string
  result_session_id :: "string option"
  log_path :: "string option"
  last_message_path :: "string option"
  error_summary :: "string option"

text \<open>\<^verbatim>\<open>Cursor\<close>. The indices are written by the program itself, from 0 upward.\<close>

record Cursor =
  task_index :: nat
  phase :: string
  after_index :: nat

text \<open>An entry of a task's \<^verbatim>\<open>history\<close> list, and the per-task dict of the state
  (\<^verbatim>\<open>tstate\<close>) with the keys the program reads and writes. A key that is absent reads
  as \<open>None\<close> (\<^verbatim>\<open>codex_can_resume\<close>: as \<open>False\<close>).\<close>

record StepRecord =
  sr_ts :: string
  sr_phase :: string
  sr_after_index :: "nat option"
  sr_engine :: string
  sr_ok :: bool
  sr_exit_code :: int
  sr_log :: "string option"

record TaskState =
  history :: "StepRecord list"
  t_claude_session_id :: "string option"
  codex_can_resume :: bool
  t_gemini_resume :: "string option"
  last_ok_engine :: "string option"
  status :: "string option"

text \<open>The state document: the cursor and the per-task dicts.\<close>

record State =
  cursor :: Cursor
  tasks :: "string \<rightharpoonup> TaskState"

text \<open>The static configuration held by \<^verbatim>\<open>Engine\<close>.\<close>

record Engine =
  repo :: string
  app_dir :: string
  include_dirs :: "string list"
  autonomy :: string
  models :: "string \<Rightarrow> string option"
  gemini_resume :: "string option"
  claude_allowed_tools :: "string option"

text \<open>The environment: the outside of the program.
  \<^item> \<open>user\<close>: what the outside does to the markers while time passes;
  \<^item> \<open>proc\<close>: the answer of a command spawned at a given time (\<open>None\<close>: not found);
  \<^item> \<open>which\<close>: \<^verbatim>\<open>shutil.which\<close> finds the binary;
  \<^item> \<open>json_loads\<close>: \<^verbatim>\<open>json.loads\<close> (\<open>None\<close>: it raises); \<open>str_of\<close>: \<^verbatim>\<open>str\<close> of a value that
    is not a string;
  \<^item> \<open>now_stamp\<close>: the time stamp \<^verbatim>\<open>now_stamp()\<close> gives at a given time;
  \<^item> \<open>dumps\<close> and \<open>loads\<close>: the state document written by \<^verbatim>\<open>json.dumps\<close> and read
    back by \<^verbatim>\<open>json.loads\<close> (\<open>None\<close>: the text does not parse);
  \<^item> \<open>build_main_prompt\<close> and \<open>build_after_prompt\<close>: the prompt texts of agentflow,
    templates filled with the task (or the follow-up text and the task id) and the path
    of the handoff file.\<close>

record env =
  user :: "nat \<Rightarrow> markers \<Rightarrow> markers"
  proc :: "nat \<Rightarrow> string list \<Rightarrow> string option \<Rightarrow> proc_out option"
  which :: "string \<Rightarrow> bool"
  json_loads :: "string \<Rightarrow> json option"
  str_of :: "json \<Rightarrow> string"
  now_stamp :: "nat \<Rightarrow> string"
  dumps :: "State \<Rightarrow> string"
  loads :: "string \<Rightarrow> State option"
  build_main_prompt :: "Task \<Rightarrow> string \<Rightarrow> string"
  build_after_prompt :: "string \<Rightarrow> string \<Rightarrow> string \<Rightarrow> string"

text \<open>One unit of time passes; the outside acts on the markers.\<close>

definition sleep :: "env \<Rightarrow> world \<Rightarrow> world" where
  "sleep e w = w\<lparr>clock := Suc (clock w), marks := user e (clock w) (marks w)\<rparr>"

definition should_pause :: "world \<Rightarrow> bool" where
  "should_pause w = pause_exists (marks w)"

definition should_stop :: "world \<Rightarrow> bool" where
  "should_stop w = stop_exists (marks w)"

section \<open>Pause and stop\<close>

text \<open>
  \<^verbatim>\<open>agentflow.py\<close>, \<^verbatim>\<open>ControlFiles.wait_if_paused\<close>:
  \<^verbatim>\<open>
    while self.should_pause():
        print(...)
        time.sleep(2.0)
  \<close>
  The loop may run forever, so the function is partial: \<open>None\<close> is "never returns".
\<close>

partial_function (option) ControlFiles_wait_if_paused :: "env \<Rightarrow> world \<Rightarrow> world option" where
  "ControlFiles_wait_if_paused e w =
     (if should_pause w then ControlFiles_wait_if_paused e (sleep e w) else Some w)"

text \<open>
  \<^verbatim>\<open>agent_csv_runner.py\<close>, \<^verbatim>\<open>wait_if_paused\<close>:
  \<^verbatim>\<open>
    while pause_file.exists():
        log(...)
        if stop_file.exists():
            return
        time.sleep(interval_s)
  \<close>
\<close>

partial_function (option) wait_if_paused :: "env \<Rightarrow> world \<Rightarrow> world option" where
  "wait_if_paused e w =
     (if should_pause w
      then (if should_stop w then Some w else wait_if_paused e (sleep e w))
      else Some w)"


text \<open>The world after \<open>n\<close> polls.\<close>

definition after_polls :: "env \<Rightarrow> nat \<Rightarrow> world \<Rightarrow> world" where
  "after_polls e n w = (sleep e ^^ n) w"

text \<open>Polling is blocked, for the runner, while the pause marker is there and the stop
  marker is not.\<close>

definition blocked :: "env \<Rightarrow> nat \<Rightarrow> world \<Rightarrow> bool" where
  "blocked e j w = (should_pause (after_polls e j w) \<and> \<not> should_stop (after_polls e j w))"

text \<open>Concrete environments and worlds for the examples: nobody touches the markers
  (\<open>idle_env\<close>); somebody deletes the pause marker during the second sleep
  (\<open>release_env\<close>).\<close>

definition idle_env :: env where
  "idle_env = \<lparr>user = (\<lambda>t m. m), proc = (\<lambda>t c i. None), which = (\<lambda>b. False),
     json_loads = (\<lambda>s. None), str_of = (\<lambda>v. []), now_stamp = (\<lambda>t. ''20260101-000000''),
     dumps = (\<lambda>s. []), loads = (\<lambda>s. None),
     build_main_prompt = (\<lambda>t h. ''TASK: '' @ task_id t),
     build_after_prompt = (\<lambda>a t h. ''Follow-up for TASK '' @ t)\<rparr>"

definition release_env :: env where
  "release_env = idle_env\<lparr>user := (\<lambda>t m. if t = 1 then m\<lparr>pause_exists := False\<rparr> else m)\<rparr>"

definition world0 :: "bool \<Rightarrow> bool \<Rightarrow> world" where
  "world0 p s = \<lparr>clock = 0, marks = \<lparr>pause_exists = p, stop_exists = s\<rparr>, files = Map.empty,
     spawned = []\<rparr>"

section \<open>Python values and strings\<close>

text \<open>The exceptions of the source that the model keeps apart.\<close>

datatype py_error =
    ValueError string
  | AttributeError
  | RuntimeError string
  | SystemExit string
  | FileNotFoundError

text \<open>Truthiness of a JSON value, as \<^verbatim>\<open>if v:\<close> and \<^verbatim>\<open>v or d\<close> read it.\<close>

fun truthy :: "json \<Rightarrow> bool" where
  "truthy JNull = False"
| "truthy (JBool b) = b"
| "truthy (JInt n) = (n \<noteq> 0)"
| "truthy (JStr s) = (s \<noteq> [])"
| "truthy (JArr xs) = (xs \<noteq> [])"
| "truthy (JObj kvs) = (kvs \<noteq> [])"

text \<open>\<^verbatim>\<open>d.get(k)\<close> on a dict: a missing key reads as \<^verbatim>\<open>None\<close>, which is \<open>JNull\<close>;
  \<^verbatim>\<open>d.get(k, default)\<close> gives the default for a missing key only.\<close>

definition dict_get :: "(string \<times> json) list \<Rightarrow> string \<Rightarrow> json" where
  "dict_get kvs k = (case map_of kvs k of None \<Rightarrow> JNull | Some v \<Rightarrow> v)"

definition dict_get_default :: "(string \<times> json) list \<Rightarrow> string \<Rightarrow> json \<Rightarrow> json" where
  "dict_get_default kvs k d = (case map_of kvs k of None \<Rightarrow> d | Some v \<Rightarrow> v)"

text \<open>\<^verbatim>\<open>a or b\<close>.\<close>

definition py_or :: "json \<Rightarrow> json \<Rightarrow> json" where
  "py_or a b = (if truthy a then a else b)"

text \<open>\<^verbatim>\<open>str(v)\<close>: a string is itself; how Python prints any other value is left to the
  environment.\<close>

definition py_str :: "env \<Rightarrow> json \<Rightarrow> string" where
  "py_str e v = (case v of JStr s \<Rightarrow> s | _ \<Rightarrow> str_of e v)"

text \<open>\<^verbatim>\<open>str.strip()\<close>, \<^verbatim>\<open>str.lower()\<close> and \<^verbatim>\<open>str.rstrip("\n")\<close> on ASCII text: the
  white space of \<^verbatim>\<open>str.isspace\<close> below 128 is the codes 9 to 13 and 28 to 32.\<close>

definition is_space :: "char \<Rightarrow> bool" where
  "is_space c = (let n = (of_char c :: nat) in (9 \<le> n \<and> n \<le> 13) \<or> (28 \<le> n \<and> n \<le> 32))"

definition py_strip :: "string \<Rightarrow> string" where
  "py_strip s = rev (dropWhile is_space (rev (dropWhile is_space s)))"

text \<open>An upper-case ASCII letter (65 to 90) becomes lower case by adding 32, which sets
  the bit of weight 32.\<close>

definition lower_char :: "char \<Rightarrow> char" where
  "lower_char c =
     (let n = (of_char c :: nat) in
      if 65 \<le> n \<and> n \<le> 90
      then (case c of Char b0 b1 b2 b3 b4 b5 b6 b7 \<Rightarrow> Char b0 b1 b2 b3 b4 True b6 b7)
      else c)"

definition py_lower :: "string \<Rightarrow> string" where
  "py_lower s = map lower_char s"

definition rstrip_newlines :: "string \<Rightarrow> string" where
  "rstrip_newlines s = rev (dropWhile (\<lambda>c. c = CHR 0x0A) (rev s))"

definition startswith :: "string \<Rightarrow> string \<Rightarrow> bool" where
  "startswith s p = (take (length p) s = p)"

text \<open>Truthiness of an \<^verbatim>\<open>Optional[str]\<close>.\<close>

definition opt_truthy :: "string option \<Rightarrow> bool" where
  "opt_truthy v = (case v of None \<Rightarrow> False | Some s \<Rightarrow> s \<noteq> [])"

section \<open>agent_csv_runner.py: spawning processes\<close>

text \<open>\<^verbatim>\<open>RunResult\<close> of the runner: command, return code, standard output and error.\<close>

record CsvRunResult =
  cmd :: "string list"
  returncode :: int
  rr_stdout :: string
  rr_stderr :: string

record TaskSessions =
  codex_started :: bool
  claude_session_id :: "string option"
  gemini_session_id :: "string option"

text \<open>A process is spawned at the current time and time passes while it runs.\<close>

definition spawn :: "env \<Rightarrow> world \<Rightarrow> string list \<Rightarrow> string option \<Rightarrow> proc_out option \<times> world" where
  "spawn e w c inp =
     (case proc e (clock w) c inp of
        None \<Rightarrow> (None, (sleep e w)\<lparr>spawned := spawned w @ [c]\<rparr>)
      | Some po \<Rightarrow>
          (Some po, (sleep e w)\<lparr>files := files w ++ map_of (po_wrote po),
                                 spawned := spawned w @ [c]\<rparr>))"

text \<open>\<^verbatim>\<open>run\<close>: \<^verbatim>\<open>subprocess.run\<close> with captured output; a missing binary raises.\<close>

definition run :: "env \<Rightarrow> world \<Rightarrow> string list \<Rightarrow> string option \<Rightarrow> py_error + (CsvRunResult \<times> world)" where
  "run e w c inp =
     (case spawn e w c inp of
        (None, w') \<Rightarrow> Inl FileNotFoundError
      | (Some po, w') \<Rightarrow>
          Inr (\<lparr>cmd = c, returncode = po_rc po, rr_stdout = concat (po_lines po),
                rr_stderr = po_err po\<rparr>, w'))"

text \<open>\<^verbatim>\<open>run_stream_lines\<close>: every line of the merged output goes to \<^verbatim>\<open>on_line\<close>, without
  its line end; an exception of \<^verbatim>\<open>on_line\<close> ends the call. The callback's captured
  variables are the state \<open>st\<close>.\<close>

fun feed_lines :: "(string \<Rightarrow> 's \<Rightarrow> py_error + 's) \<Rightarrow> string list \<Rightarrow> 's \<Rightarrow> py_error + 's" where
  "feed_lines on_line [] st = Inr st"
| "feed_lines on_line (l # ls) st =
     (case on_line (rstrip_newlines l) st of
        Inl err \<Rightarrow> Inl err
      | Inr st' \<Rightarrow> feed_lines on_line ls st')"

definition run_stream_lines ::
  "env \<Rightarrow> world \<Rightarrow> string list \<Rightarrow> string option \<Rightarrow> (string \<Rightarrow> 's \<Rightarrow> py_error + 's) \<Rightarrow> 's
     \<Rightarrow> py_error + (CsvRunResult \<times> 's \<times> world)" where
  "run_stream_lines e w c inp on_line st =
     (case spawn e w c inp of
        (None, w') \<Rightarrow> Inl FileNotFoundError
      | (Some po, w') \<Rightarrow>
          (case feed_lines on_line (po_lines po) st of
             Inl err \<Rightarrow> Inl err
           | Inr st' \<Rightarrow>
               Inr (\<lparr>cmd = c, returncode = po_rc po, rr_stdout = concat (po_lines po),
                     rr_stderr = []\<rparr>, st', w')))"

section \<open>agent_csv_runner.py: the gemini backend\<close>

text \<open>
  The variables \<^verbatim>\<open>handle_line\<close> closes over in \<^verbatim>\<open>AgentRunner.gemini_run\<close>:
  \<^verbatim>\<open>session_id\<close> (also stored in \<^verbatim>\<open>self.sessions.gemini_session_id\<close>),
  \<^verbatim>\<open>result_status\<close>, \<^verbatim>\<open>errors\<close> and \<^verbatim>\<open>assistant_chunks\<close>.
\<close>

record stream_state =
  session_id :: "string option"
  result_status :: "string option"
  errors :: "string list"
  assistant_chunks :: "string list"

text \<open>
  \<^verbatim>\<open>handle_line\<close>. A line that is not JSON is skipped; a JSON value that is not an object
  has no \<^verbatim>\<open>get\<close>, which raises. The branches for \<^verbatim>\<open>tool_use\<close> and
  \<^verbatim>\<open>tool_result\<close> only log. Writing the line to the raw files is not modelled.
\<close>

definition handle_line :: "env \<Rightarrow> string \<Rightarrow> stream_state \<Rightarrow> py_error + stream_state" where
  "handle_line e line st =
     (case json_loads e line of
        None \<Rightarrow> Inr st
      | Some evt \<Rightarrow>
          (case evt of
             JObj kvs \<Rightarrow>
               (let et = dict_get kvs ''type'' in
                if et = JStr ''init'' then
                  (let sid = dict_get kvs ''session_id'' in
                   if truthy sid then Inr (st\<lparr>session_id := Some (py_str e sid)\<rparr>) else Inr st)
                else if et = JStr ''error'' then
                  (let msg = py_str e (py_or (dict_get kvs ''message'') evt) in
                   Inr (st\<lparr>errors := errors st @ [msg]\<rparr>))
                else if et = JStr ''message'' then
                  (let role = dict_get kvs ''role'';
                       content = py_or (dict_get kvs ''content'') (JStr []) in
                   if role = JStr ''assistant''
                   then Inr (st\<lparr>assistant_chunks := assistant_chunks st @ [py_str e content]\<rparr>)
                   else Inr st)
                else if et = JStr ''result'' then
                  Inr (st\<lparr>result_status :=
                         Some (py_lower (py_str e (py_or (dict_get kvs ''status'') (JStr []))))\<rparr>)
                else Inr st)
           | _ \<Rightarrow> Inl AttributeError))"

text \<open>"Determine success" of the streamed call.\<close>

definition stream_effective_rc :: "int \<Rightarrow> stream_state \<Rightarrow> int" where
  "stream_effective_rc rc st =
     (if rc \<noteq> 0 then rc
      else if opt_truthy (result_status st) \<and> result_status st \<noteq> Some ''success'' then 1
      else if errors st \<noteq> [] then 1
      else 0)"

text \<open>
  The single payload of the \<^verbatim>\<open>json\<close> output format: the response text and the error
  summary after the \<^verbatim>\<open>try\<close> block. Any exception inside the block (the payload does not
  parse, \<^verbatim>\<open>error\<close> is not a dict, \<^verbatim>\<open>response\<close> is not a string) leaves the response
  text as it was and sets the summary to \<^verbatim>\<open>JSON parse error: ...\<close>; the text Python
  prints for the exception is \<open>exc_text\<close>.
\<close>

definition exc_text :: "py_error \<Rightarrow> string" where
  "exc_text err =
     (case err of
        ValueError m \<Rightarrow> m
      | AttributeError \<Rightarrow> ''object has no attribute''
      | RuntimeError m \<Rightarrow> m
      | SystemExit m \<Rightarrow> m
      | FileNotFoundError \<Rightarrow> ''No such file or directory'')"

definition payload_error_summary :: "env \<Rightarrow> json \<Rightarrow> py_error + string" where
  "payload_error_summary e obj =
     (case obj of
        JObj kvs \<Rightarrow>
          (if truthy (dict_get kvs ''error'') then
             (case py_or (dict_get kvs ''error'') (JObj []) of
                JObj ekvs \<Rightarrow>
                  Inr (py_strip (py_str e (dict_get_default ekvs ''type'' (JStr ''Error''))
                        @ '': '' @ py_str e (dict_get_default ekvs ''message'' (JStr []))))
              | _ \<Rightarrow> Inl AttributeError)
           else Inr [])
      | _ \<Rightarrow> Inr [])"

definition payload_response_text :: "json \<Rightarrow> py_error + string" where
  "payload_response_text obj =
     (case obj of
        JObj kvs \<Rightarrow>
          (case py_or (dict_get kvs ''response'') (JStr []) of
             JStr s \<Rightarrow> Inr (py_strip s)
           | _ \<Rightarrow> Inl AttributeError)
      | _ \<Rightarrow> Inl AttributeError)"

definition gemini_json_payload :: "env \<Rightarrow> string \<Rightarrow> string \<times> string" where
  "gemini_json_payload e out =
     (let response0 = py_strip out;
          parsed = (if startswith (py_strip out) ''{''
                    then (case json_loads e out of
                            None \<Rightarrow> Inl (ValueError ''Expecting value'')
                          | Some v \<Rightarrow> Inr v)
                    else Inr (JObj []))
      in case parsed of
           Inl err \<Rightarrow> (response0, ''JSON parse error: '' @ exc_text err)
         | Inr obj \<Rightarrow>
             (case payload_error_summary e obj of
                Inl err \<Rightarrow> (response0, ''JSON parse error: '' @ exc_text err)
              | Inr summary \<Rightarrow>
                  (case payload_response_text obj of
                     Inl err \<Rightarrow> (response0, ''JSON parse error: '' @ exc_text err)
                   | Inr resp \<Rightarrow> (resp, summary))))"

text \<open>
  \<^verbatim>\<open>AgentRunner.gemini_run\<close>. \<open>g\<close> is the \<^verbatim>\<open>gemini\<close> section of the configuration;
  \<open>args\<close> stands for \<^verbatim>\<open>self._gemini_args(output_format=..., model=...)\<close>, the
  argument list built from the static configuration. The log files and the handoff
  entry are not modelled. The result is the \<^verbatim>\<open>RunResult\<close> with the effective return
  code, the session id and the updated sessions.
\<close>

definition gemini_outfmt :: "env \<Rightarrow> (string \<times> json) list \<Rightarrow> TaskSessions \<Rightarrow> string" where
  "gemini_outfmt e g sessions =
     (let configured_outfmt = py_strip (py_str e (py_or (dict_get g ''output_format'') (JStr ''json'')));
          resume_strategy = py_strip (py_str e (py_or (dict_get g ''resume_strategy'') (JStr ''per_task'')));
          capture_session = truthy (dict_get_default g ''capture_session_id'' (JBool True));
          need_session = (resume_strategy = ''per_task'');
          have_session = opt_truthy (gemini_session_id sessions);
          force_stream = (need_session \<and> \<not> have_session \<and> capture_session)
      in if force_stream then ''stream-json'' else configured_outfmt)"

definition gemini_cmd ::
  "env \<Rightarrow> (string \<Rightarrow> string list) \<Rightarrow> (string \<times> json) list \<Rightarrow> TaskSessions \<Rightarrow> string list" where
  "gemini_cmd e args g sessions =
     (let resume_strategy = py_strip (py_str e (py_or (dict_get g ''resume_strategy'') (JStr ''per_task'')))
      in [''gemini''] @ args (gemini_outfmt e g sessions) @
         (if resume_strategy = ''latest'' then [''--resume'', ''latest'']
          else if resume_strategy = ''per_task'' \<and> opt_truthy (gemini_session_id sessions)
          then [''--resume'', the (gemini_session_id sessions)]
          else []))"

definition gemini_run ::
  "env \<Rightarrow> (string \<Rightarrow> string list) \<Rightarrow> (string \<times> json) list \<Rightarrow> TaskSessions \<Rightarrow> string \<Rightarrow> world
     \<Rightarrow> py_error + (CsvRunResult \<times> string option \<times> TaskSessions \<times> world)" where
  "gemini_run e args g sessions prompt w =
     (let outfmt = gemini_outfmt e g sessions;
          c = gemini_cmd e args g sessions
      in if outfmt = ''stream-json'' then
           (case run_stream_lines e w c (Some prompt) (handle_line e)
                   \<lparr>session_id = gemini_session_id sessions, result_status = None,
                    errors = [], assistant_chunks = []\<rparr> of
              Inl err \<Rightarrow> Inl err
            | Inr (rr, st, w') \<Rightarrow>
                Inr (rr\<lparr>returncode := stream_effective_rc (returncode rr) st\<rparr>,
                     session_id st,
                     sessions\<lparr>gemini_session_id := session_id st\<rparr>, w'))
         else
           (case run e w c (Some prompt) of
              Inl err \<Rightarrow> Inl err
            | Inr (rr, w') \<Rightarrow>
                (let (response_text, error_summary) =
                       (if outfmt = ''json'' then gemini_json_payload e (rr_stdout rr)
                        else (py_strip (rr_stdout rr), []));
                     effective_rc = (if error_summary \<noteq> [] \<and> returncode rr = 0 then 1
                                     else returncode rr)
                 in Inr (rr\<lparr>returncode := effective_rc\<rparr>, gemini_session_id sessions,
                         sessions, w'))))"

text \<open>
  \<^verbatim>\<open>AgentRunner.claude_run\<close>. \<open>c\<close> is the \<^verbatim>\<open>claude\<close> section of the configuration and
  \<open>args\<close> stands for \<^verbatim>\<open>self._claude_args()\<close>. The payload is read for the session id
  and the result text only; the \<^verbatim>\<open>RunResult\<close> of the process is returned as it is.
\<close>

definition claude_payload :: "env \<Rightarrow> string \<Rightarrow> json \<times> string" where
  "claude_payload e out =
     (case json_loads e out of
        Some (JObj kvs) \<Rightarrow>
          (dict_get kvs ''session_id'',
           (case py_or (dict_get kvs ''result'') (JStr []) of
              JStr s \<Rightarrow> py_strip s
            | _ \<Rightarrow> py_strip out))
      | _ \<Rightarrow> (JNull, py_strip out))"

definition claude_run ::
  "env \<Rightarrow> string list \<Rightarrow> (string \<times> json) list \<Rightarrow> TaskSessions \<Rightarrow> string \<Rightarrow> world
     \<Rightarrow> py_error + (CsvRunResult \<times> string option \<times> TaskSessions \<times> world)" where
  "claude_run e args c sessions prompt w =
     (let outfmt = py_strip (py_str e (py_or (dict_get c ''output_format'') (JStr ''json'')));
          cm = [''claude''] @ args @
               (if opt_truthy (claude_session_id sessions)
                then [''--resume'', the (claude_session_id sessions)] else []) @ [prompt]
      in case run e w cm None of
           Inl err \<Rightarrow> Inl err
         | Inr (rr, w') \<Rightarrow>
             (let new_session_id =
                    (if returncode rr = 0 \<and> outfmt = ''json''
                     then fst (claude_payload e (rr_stdout rr)) else JNull);
                  sessions' =
                    (if returncode rr = 0 \<and> truthy new_session_id
                        \<and> \<not> opt_truthy (claude_session_id sessions)
                     then sessions\<lparr>claude_session_id := Some (py_str e new_session_id)\<rparr>
                     else sessions)
              in Inr (rr, claude_session_id sessions', sessions', w')))"


text \<open>Reading a line of the stream as the callback does.\<close>

definition event_of :: "env \<Rightarrow> string \<Rightarrow> (string \<times> json) list option" where
  "event_of e l = (case json_loads e (rstrip_newlines l) of Some (JObj kvs) \<Rightarrow> Some kvs | _ \<Rightarrow> None)"

text \<open>A line the callback accepts: not JSON at all, or a JSON object.\<close>

definition accepted_line :: "env \<Rightarrow> string \<Rightarrow> bool" where
  "accepted_line e l =
     (case json_loads e (rstrip_newlines l) of None \<Rightarrow> True | Some (JObj kvs) \<Rightarrow> True | Some _ \<Rightarrow> False)"

definition is_error_event :: "env \<Rightarrow> string \<Rightarrow> bool" where
  "is_error_event e l =
     (case event_of e l of Some kvs \<Rightarrow> dict_get kvs ''type'' = JStr ''error'' | None \<Rightarrow> False)"

text \<open>The status a \<^verbatim>\<open>result\<close> event carries, as text, and the session id a line sets.\<close>

definition result_event_status :: "env \<Rightarrow> string \<Rightarrow> string option" where
  "result_event_status e l =
     (case event_of e l of
        Some kvs \<Rightarrow>
          (if dict_get kvs ''type'' = JStr ''result''
           then Some (py_str e (py_or (dict_get kvs ''status'') (JStr [])))
           else None)
      | None \<Rightarrow> None)"

definition init_event_session :: "env \<Rightarrow> string \<Rightarrow> string option" where
  "init_event_session e l =
     (case event_of e l of
        Some kvs \<Rightarrow>
          (if dict_get kvs ''type'' = JStr ''init'' \<and> truthy (dict_get kvs ''session_id'')
           then Some (py_str e (dict_get kvs ''session_id''))
           else None)
      | None \<Rightarrow> None)"

text \<open>The last line of a stream for which \<open>f\<close> gives something.\<close>

fun last_with :: "(string \<Rightarrow> 'a option) \<Rightarrow> string list \<Rightarrow> 'a option" where
  "last_with f [] = None"
| "last_with f (l # ls) = (case last_with f ls of Some v \<Rightarrow> Some v | None \<Rightarrow> f l)"

text \<open>Example streams: the default configuration (no session yet, so the call is forced
  to \<^verbatim>\<open>stream-json\<close>), a process that exits with code 0, and \<^verbatim>\<open>json.loads\<close> on the
  three lines used.\<close>

definition line_init :: string where
  "line_init = ''{\"type\": \"init\", \"session_id\": \"s-1\"}''"

definition line_error :: string where
  "line_error = ''{\"type\": \"error\", \"message\": \"quota exceeded\"}''"

definition line_result_blank :: string where
  "line_result_blank = ''{\"type\": \"result\", \"status\": \"\"}''"

definition demo_loads :: "string \<Rightarrow> json option" where
  "demo_loads = map_of
     [(line_init, JObj [(''type'', JStr ''init''), (''session_id'', JStr ''s-1'')]),
      (line_error, JObj [(''type'', JStr ''error''), (''message'', JStr ''quota exceeded'')]),
      (line_result_blank, JObj [(''type'', JStr ''result''), (''status'', JStr [])])]"

definition stream_env :: "string list \<Rightarrow> env" where
  "stream_env ls = idle_env\<lparr>
     proc := (\<lambda>t c i. Some \<lparr>po_rc = 0, po_lines = map (\<lambda>l. l @ [CHR 0x0A]) ls, po_err = [], po_wrote = []\<rparr>),
     json_loads := demo_loads\<rparr>"

definition no_sessions :: TaskSessions where
  "no_sessions = \<lparr>codex_started = False, claude_session_id = None, gemini_session_id = None\<rparr>"

text \<open>The return code of a backend call that returned, for the examples.\<close>

definition returned_code :: "py_error + (CsvRunResult \<times> 'a) \<Rightarrow> int option" where
  "returned_code r = (case r of Inl err \<Rightarrow> None | Inr (rr, x) \<Rightarrow> Some (returncode rr))"

definition returned_session :: "py_error + (CsvRunResult \<times> string option \<times> 'a) \<Rightarrow> string option" where
  "returned_session r = (case r of Inl err \<Rightarrow> None | Inr (rr, sid, x) \<Rightarrow> sid)"

section \<open>agentflow.py: helpers\<close>

text \<open>\<^verbatim>\<open>clamp\<close>, on ASCII text (a character is a byte); the ellipsis it appends stands as
  its three bytes in UTF-8. With \<open>max_chars = 0\<close> the slice \<^verbatim>\<open>s[:-1]\<close> is the text without
  its last character.\<close>

definition clamp :: "string \<Rightarrow> nat \<Rightarrow> string" where
  "clamp s max_chars =
     (if length s \<le> max_chars then s
      else (if max_chars = 0 then butlast s else take (max_chars - 1) s)
           @ [CHR 0xE2, CHR 0x80, CHR 0xA6])"

text \<open>\<^verbatim>\<open>normalize_engine\<close>.\<close>

definition normalize_engine :: "string \<Rightarrow> py_error + string" where
  "normalize_engine name0 =
     (let name = py_lower (py_strip name0) in
      if name \<in> set [''codex'', ''openai'', ''oai''] then Inr ''codex''
      else if name \<in> set [''claude'', ''claude-code'', ''anthropic''] then Inr ''claude''
      else if name \<in> set [''gemini'', ''google''] then Inr ''gemini''
      else Inl (ValueError (''Unknown engine: '' @ name)))"

text \<open>\<^verbatim>\<open>Path.with_suffix\<close> on a path written with \<^verbatim>\<open>/\<close>: the suffix of the last
  component is what follows its last dot, unless that dot is its first or last
  character.\<close>

definition path_name :: "string \<Rightarrow> string" where
  "path_name p = rev (takeWhile (\<lambda>c. c \<noteq> CHR ''/'') (rev p))"

definition path_suffix :: "string \<Rightarrow> string" where
  "path_suffix p =
     (let name = path_name p; r = takeWhile (\<lambda>c. c \<noteq> CHR ''.'') (rev name) in
      if CHR ''.'' \<in> set name \<and> 0 < length r \<and> Suc (length r) < length name
      then CHR ''.'' # rev r else [])"

definition with_suffix :: "string \<Rightarrow> string \<Rightarrow> string" where
  "with_suffix p sfx = take (length p - length (path_suffix p)) p @ sfx"

section \<open>agentflow.py: the process runner\<close>

text \<open>
  \<^verbatim>\<open>run_process\<close> keeps the captured lines below \<^verbatim>\<open>_MAX_CAPTURE_CHARS\<close>: once the
  total passes the ceiling, the oldest tenth of the lines (at least one) is dropped.
  A command that is not found gives \<^verbatim>\<open>(127, "")\<close>. The log file is not modelled.
\<close>

definition MAX_CAPTURE_CHARS :: nat where
  "MAX_CAPTURE_CHARS = 5000000"

fun capture_lines :: "string list \<Rightarrow> string list \<Rightarrow> string list" where
  "capture_lines captured [] = captured"
| "capture_lines captured (line # ls) =
     (let c = captured @ [line] in
      if sum_list (map length c) > MAX_CAPTURE_CHARS
      then capture_lines (drop (max 1 (length c div 10)) c) ls
      else capture_lines c ls)"

definition run_process ::
  "env \<Rightarrow> world \<Rightarrow> string list \<Rightarrow> string option \<Rightarrow> (int \<times> string) \<times> world" where
  "run_process e w c inp =
     (case spawn e w c inp of
        (None, w') \<Rightarrow> ((127, []), w')
      | (Some po, w') \<Rightarrow> ((po_rc po, concat (capture_lines [] (po_lines po))), w'))"

text \<open>\<^verbatim>\<open>try_parse_json_object\<close>: the longest-reaching suffix that starts at a brace and
  parses, scanning from the end; else the whole text.\<close>

fun scan_back :: "env \<Rightarrow> string \<Rightarrow> nat \<Rightarrow> json option" where
  "scan_back e t 0 = None"
| "scan_back e t (Suc i) =
     (if t ! i = CHR ''{''
      then (case json_loads e (drop i t) of Some v \<Rightarrow> Some v | None \<Rightarrow> scan_back e t i)
      else scan_back e t i)"

definition try_parse_json_object :: "env \<Rightarrow> string \<Rightarrow> json option" where
  "try_parse_json_object e text0 =
     (let t = py_strip text0 in
      if t = [] then None
      else (case scan_back e t (length t) of
              Some v \<Rightarrow> Some v
            | None \<Rightarrow> json_loads e t))"

text \<open>A JSON value read where the source expects \<^verbatim>\<open>Optional[str]\<close>.\<close>

definition json_opt_str :: "json \<Rightarrow> string option" where
  "json_opt_str v = (case v of JStr s \<Rightarrow> Some s | _ \<Rightarrow> None)"

section \<open>agentflow.py: the engines\<close>

definition not_found :: "string \<Rightarrow> RunResult" where
  "not_found name =
     \<lparr>engine = name, ok = False, exit_code = 127, stdout = [], assistant_text = [],
      result_session_id = None, log_path = None, last_message_path = None,
      error_summary = Some (name @ '' binary not found on PATH'')\<rparr>"

text \<open>\<^verbatim>\<open>Engine.run_codex\<close>: the command line, then the result.\<close>

definition run_codex_cmd :: "Engine \<Rightarrow> bool \<Rightarrow> string \<Rightarrow> string list" where
  "run_codex_cmd eng resume_last last_path =
     [''codex'', ''exec'', ''--cd'', repo eng]
     @ concat (map (\<lambda>d. [''--add-dir'', d]) (include_dirs eng))
     @ (if opt_truthy (models eng ''codex'') then [''--model'', the (models eng ''codex'')] else [])
     @ (if autonomy eng = ''yolo'' then [''--yolo'']
        else [''--sandbox'', ''workspace-write'', ''--ask-for-approval'', ''never''])
     @ [''--color'', ''never'', ''--output-last-message'', last_path]
     @ (if resume_last then [''resume'', ''--last'', ''-''] else [''-''])"

definition run_codex ::
  "env \<Rightarrow> Engine \<Rightarrow> string \<Rightarrow> bool \<Rightarrow> string \<Rightarrow> string \<Rightarrow> world \<Rightarrow> RunResult \<times> world" where
  "run_codex e eng prompt resume_last lpath last_path w =
     (if \<not> which e ''codex'' then (not_found ''codex'', w)
      else
        (let ((rc, out), w') = run_process e w (run_codex_cmd eng resume_last last_path) (Some prompt);
             atext = (case files w' last_path of
                        Some t \<Rightarrow> py_strip t
                      | None \<Rightarrow> py_strip out)
         in (\<lparr>engine = ''codex'', ok = (rc = 0), exit_code = rc, stdout = out,
              assistant_text = atext, result_session_id = None, log_path = Some lpath,
              last_message_path = Some last_path, error_summary = None\<rparr>, w')))"

text \<open>\<^verbatim>\<open>Engine.run_claude\<close>: the command line, then the result read from the exit code
  and the output. With a parsed object, \<^verbatim>\<open>is_error is True\<close> or
  \<^verbatim>\<open>subtype == "error"\<close> makes the result a failure whatever the exit code.\<close>

definition run_claude_cmd :: "Engine \<Rightarrow> string \<Rightarrow> string option \<Rightarrow> string list" where
  "run_claude_cmd eng prompt resume_session =
     [''claude'', ''-p'', ''--output-format'', ''json'']
     @ (if opt_truthy (models eng ''claude'') then [''--model'', the (models eng ''claude'')] else [])
     @ concat (map (\<lambda>d. [''--add-dir'', d]) (include_dirs eng))
     @ (if autonomy eng = ''yolo'' \<or> autonomy eng = ''full_auto''
        then [''--dangerously-skip-permissions'']
        else [''--allowedTools'',
              (if opt_truthy (claude_allowed_tools eng) then the (claude_allowed_tools eng)
               else ''Read,Edit,Grep,Glob''),
              ''--permission-mode'', ''acceptEdits''])
     @ (if opt_truthy resume_session then [''--resume'', the resume_session] else [])
     @ [prompt]"

definition claude_result :: "env \<Rightarrow> string \<Rightarrow> int \<Rightarrow> string \<Rightarrow> RunResult" where
  "claude_result e lpath rc out =
     (case try_parse_json_object e out of
        Some (JObj kvs) \<Rightarrow>
          (let r = py_strip (py_str e (dict_get_default kvs ''result'' (JStr [])));
               atext = (if r \<noteq> [] then r else py_strip out);
               is_error = dict_get kvs ''is_error'';
               subtype = dict_get kvs ''subtype'';
               failed = (is_error = JBool True \<or> subtype = JStr ''error'')
           in \<lparr>engine = ''claude'', ok = (if failed then False else rc = 0),
                exit_code = rc, stdout = out, assistant_text = atext,
                result_session_id = json_opt_str (dict_get kvs ''session_id''),
                log_path = Some lpath, last_message_path = None,
                error_summary = (if failed then Some (clamp atext 500) else None)\<rparr>)
      | _ \<Rightarrow>
          \<lparr>engine = ''claude'', ok = (rc = 0), exit_code = rc, stdout = out,
            assistant_text = py_strip out, result_session_id = None,
            log_path = Some lpath, last_message_path = None, error_summary = None\<rparr>)"

definition run_claude ::
  "env \<Rightarrow> Engine \<Rightarrow> string \<Rightarrow> string option \<Rightarrow> string \<Rightarrow> world \<Rightarrow> RunResult \<times> world" where
  "run_claude e eng prompt resume_session lpath w =
     (if \<not> which e ''claude'' then (not_found ''claude'', w)
      else
        (let ((rc, out), w') = run_process e w (run_claude_cmd eng prompt resume_session) None
         in (claude_result e lpath rc out, w')))"

text \<open>\<^verbatim>\<open>Engine.run_gemini\<close>: the command line, then the result. With a parsed object, a
  truthy \<^verbatim>\<open>error\<close> field makes the result a failure whatever the exit code.\<close>

definition run_gemini_cmd :: "Engine \<Rightarrow> string \<Rightarrow> string option \<Rightarrow> string list" where
  "run_gemini_cmd eng prompt resume_token =
     [''gemini'', ''--output-format'', ''json'']
     @ (if opt_truthy (models eng ''gemini'') then [''--model'', the (models eng ''gemini'')] else [])
     @ (if autonomy eng = ''auto_edit'' then [''--approval-mode'', ''auto_edit'']
        else [''--approval-mode'', ''yolo''])
     @ concat (map (\<lambda>d. [''--include-directories'', d]) (take 5 (include_dirs eng)))
     @ (if opt_truthy resume_token then [''--resume'', the resume_token] else [])
     @ [prompt]"

definition gemini_result :: "env \<Rightarrow> string \<Rightarrow> int \<Rightarrow> string \<Rightarrow> RunResult" where
  "gemini_result e lpath rc out =
     (case try_parse_json_object e out of
        Some (JObj kvs) \<Rightarrow>
          (let err = dict_get kvs ''error'';
               r = py_strip (py_str e (py_or (dict_get kvs ''response'') (JStr [])))
           in \<lparr>engine = ''gemini'', ok = (if truthy err then False else rc = 0),
                exit_code = rc, stdout = out,
                assistant_text = (if r \<noteq> [] then r else py_strip out),
                result_session_id = None, log_path = Some lpath, last_message_path = None,
                error_summary = (if truthy err then Some (clamp (py_str e err) 700) else None)\<rparr>)
      | _ \<Rightarrow>
          \<lparr>engine = ''gemini'', ok = (rc = 0), exit_code = rc, stdout = out,
            assistant_text = py_strip out, result_session_id = None,
            log_path = Some lpath, last_message_path = None, error_summary = None\<rparr>)"

definition run_gemini ::
  "env \<Rightarrow> Engine \<Rightarrow> string \<Rightarrow> string \<Rightarrow> string option \<Rightarrow> world \<Rightarrow> RunResult \<times> world" where
  "run_gemini e eng prompt lpath resume_token w =
     (if \<not> which e ''gemini'' then (not_found ''gemini'', w)
      else
        (let ((rc, out), w') = run_process e w (run_gemini_cmd eng prompt resume_token) None
         in (gemini_result e lpath rc out, w')))"

section \<open>agentflow.py: the state document\<close>

definition default_state :: State where
  "default_state = \<lparr>cursor = \<lparr>task_index = 0, phase = ''main'', after_index = 0\<rparr>, tasks = Map.empty\<rparr>"

text \<open>
  \<^verbatim>\<open>load_state\<close>: no file, the default state; a file that parses, its content; a file
  that does not parse is copied to a backup named after the time, and the default
  state is returned.
\<close>

definition load_state :: "env \<Rightarrow> string \<Rightarrow> world \<Rightarrow> State \<times> world" where
  "load_state e path w =
     (case files w path of
        None \<Rightarrow> (default_state, w)
      | Some content \<Rightarrow>
          (case loads e content of
             Some st \<Rightarrow> (st, w)
           | None \<Rightarrow>
               (let backup = with_suffix path (''.corrupt.'' @ now_stamp e (clock w) @ ''.json'')
                in (default_state, w\<lparr>files := (files w)(backup \<mapsto> content)\<rparr>))))"

text \<open>
  \<^verbatim>\<open>save_state\<close>: the document is written to the temporary file beside the state file,
  which then replaces the state file. Seen from the rest of the program the two steps
  are one; the steps themselves are \<open>save_state_ops\<close> below.
\<close>

definition save_state :: "env \<Rightarrow> string \<Rightarrow> State \<Rightarrow> world \<Rightarrow> world" where
  "save_state e path st w =
     (let tmp = with_suffix path ''.tmp'';
          f1 = (files w)(tmp \<mapsto> dumps e st)
      in w\<lparr>files := (f1(tmp := None))(path \<mapsto> dumps e st)\<rparr>)"

definition get_cursor :: "State \<Rightarrow> Cursor" where
  "get_cursor st = cursor st"

definition set_cursor :: "State \<Rightarrow> Cursor \<Rightarrow> State" where
  "set_cursor st c = st\<lparr>cursor := c\<rparr>"

definition empty_tstate :: TaskState where
  "empty_tstate = \<lparr>history = [], t_claude_session_id = None, codex_can_resume = False,
     t_gemini_resume = None, last_ok_engine = None, status = None\<rparr>"

text \<open>\<^verbatim>\<open>ensure_task_state\<close> returns the task's dict, creating it when absent. The dict is
  shared with the state: \<open>put_tstate\<close> is the state seen through that sharing after
  the dict has changed.\<close>

definition ensure_task_state :: "State \<Rightarrow> string \<Rightarrow> TaskState" where
  "ensure_task_state st tid = (case tasks st tid of None \<Rightarrow> empty_tstate | Some ts \<Rightarrow> ts)"

definition put_tstate :: "State \<Rightarrow> string \<Rightarrow> TaskState \<Rightarrow> State" where
  "put_tstate st tid ts = st\<lparr>tasks := (tasks st)(tid \<mapsto> ts)\<rparr>"

section \<open>File operations, step by step\<close>

text \<open>
  What a reader of the disk can see while a file is being written.
  \<^verbatim>\<open>Path.write_text\<close> opens the file for writing, which empties it, and then writes the
  text: between the two, and until the last character is out, the file holds a proper
  prefix of the text. \<^verbatim>\<open>Path.replace\<close> is a rename: the target holds its old content
  or the whole new one.
\<close>

datatype file_op = WriteText string string | Replace string string

text \<open>The states of the disk a reader can see during one operation, the last being the
  state after it.\<close>

definition states_of_op :: "file_op \<Rightarrow> (string \<rightharpoonup> string) \<Rightarrow> (string \<rightharpoonup> string) list" where
  "states_of_op op fs =
     (case op of
        WriteText p content \<Rightarrow> map (\<lambda>k. fs(p \<mapsto> take k content)) [0 ..< Suc (length content)]
      | Replace src dst \<Rightarrow>
          (case fs src of
             None \<Rightarrow> [fs]
           | Some content \<Rightarrow> [(fs(src := None))(dst \<mapsto> content)]))"

fun states_of_ops :: "file_op list \<Rightarrow> (string \<rightharpoonup> string) \<Rightarrow> (string \<rightharpoonup> string) list" where
  "states_of_ops [] fs = []"
| "states_of_ops (op # ops) fs =
     states_of_op op fs @ states_of_ops ops (last (states_of_op op fs))"

text \<open>The file operations of \<^verbatim>\<open>save_state\<close> (agentflow) and of \<^verbatim>\<open>write_json\<close> (runner):
  \<^verbatim>\<open>
    tmp = path.with_suffix(".tmp")
    tmp.write_text(json.dumps(state, ...))
    tmp.replace(path)
  \<close>
  and
  \<^verbatim>\<open>
    path.write_text(json.dumps(data, indent=2) + "\n")
  \<close>
\<close>

definition save_state_ops :: "string \<Rightarrow> string \<Rightarrow> file_op list" where
  "save_state_ops path content =
     [WriteText (with_suffix path ''.tmp'') content, Replace (with_suffix path ''.tmp'') path]"

definition write_json_ops :: "string \<Rightarrow> string \<Rightarrow> file_op list" where
  "write_json_ops path content = [WriteText path (content @ [CHR 0x0A])]"


section \<open>agentflow.py: run_task\<close>

text \<open>The variables \<^verbatim>\<open>run_with_engine\<close> closes over: read from the task's dict when
  \<^verbatim>\<open>run_task\<close> starts, and updated by the loops.\<close>

record locals =
  claude_session :: "string option"
  codex_resume :: bool
  gemini_token :: "string option"

text \<open>\<^verbatim>\<open>sub in s\<close> on strings.\<close>

fun contains :: "string \<Rightarrow> string \<Rightarrow> bool" where
  "contains [] sub = (sub = [])"
| "contains (c # cs) sub = (startswith (c # cs) sub \<or> contains cs sub)"

text \<open>\<^verbatim>\<open>run_with_engine\<close>: the log paths carry the time stamp; an engine name outside the
  three raises.\<close>

definition run_with_engine ::
  "env \<Rightarrow> Engine \<Rightarrow> Task \<Rightarrow> locals \<Rightarrow> string \<Rightarrow> string \<Rightarrow> string \<Rightarrow> string \<Rightarrow> world
     \<Rightarrow> py_error + (RunResult \<times> world)" where
  "run_with_engine e eng task loc engine_name prompt ph step_name w =
     (let ts = now_stamp e (clock w);
          task_dir = app_dir eng @ ''/tasks/'' @ task_id task;
          stem = task_dir @ ''/'' @ ts @ ''.'' @ engine_name @ ''.'' @ ph @ ''.'' @ step_name;
          lpath = stem @ ''.log'';
          last_path = stem @ ''.last.txt''
      in if engine_name = ''codex'' then
           Inr (run_codex e eng prompt (ph = ''after'' \<and> codex_resume loc) lpath last_path w)
         else if engine_name = ''claude'' then
           Inr (run_claude e eng prompt (if ph = ''after'' then claude_session loc else None) lpath w)
         else if engine_name = ''gemini'' then
           Inr (run_gemini e eng prompt lpath
                  (if opt_truthy (gemini_token loc) then gemini_token loc else gemini_resume eng) w)
         else Inl (ValueError (''unsupported engine: '' @ engine_name)))"

text \<open>
  The body of the two \<^verbatim>\<open>for eng in ...\<close> loops of \<^verbatim>\<open>run_task\<close> (the one of the MAIN
  phase and the one of each follow-up prompt; they differ in the phase written to the
  history and in the \<^verbatim>\<open>after_index\<close> entry): run the engine, append to the history,
  keep the session data (\<open>record_attempt\<close> for the task's dict, \<open>note_attempt\<close> for the
  local variables), and stop at the first engine that succeeds. The handoff file
  (\<^verbatim>\<open>write_handoff\<close>) is not modelled. The result is the last \<^verbatim>\<open>result\<close>.
\<close>

definition record_attempt ::
  "env \<Rightarrow> string \<Rightarrow> nat option \<Rightarrow> string \<Rightarrow> RunResult \<Rightarrow> world \<Rightarrow> TaskState \<Rightarrow> TaskState" where
  "record_attempt e ph idx en result w1 ts =
     (let ts1 = ts\<lparr>history := history ts @
                  [\<lparr>sr_ts = now_stamp e (clock w1), sr_phase = ph, sr_after_index = idx,
                    sr_engine = en, sr_ok = ok result, sr_exit_code = exit_code result,
                    sr_log = log_path result\<rparr>]\<rparr>;
          ts2 = (if en = ''claude'' \<and> opt_truthy (result_session_id result)
                 then ts1\<lparr>t_claude_session_id := result_session_id result\<rparr> else ts1);
          ts3 = (if en = ''codex'' then ts2\<lparr>codex_can_resume := True\<rparr> else ts2)
      in if en = ''gemini'' \<and> \<not> ok result \<and> contains (stdout result) ''INVALID_ARGUMENT''
         then ts3\<lparr>t_gemini_resume := None\<rparr> else ts3)"

definition note_attempt :: "string \<Rightarrow> RunResult \<Rightarrow> locals \<Rightarrow> locals" where
  "note_attempt en result loc =
     (let loc2 = (if en = ''claude'' \<and> opt_truthy (result_session_id result)
                  then loc\<lparr>claude_session := result_session_id result\<rparr> else loc)
      in if en = ''codex'' then loc2\<lparr>codex_resume := True\<rparr> else loc2)"

fun try_engines ::
  "env \<Rightarrow> Engine \<Rightarrow> Task \<Rightarrow> string \<Rightarrow> string \<Rightarrow> string \<Rightarrow> nat option \<Rightarrow> string list
     \<Rightarrow> RunResult option \<Rightarrow> TaskState \<Rightarrow> locals \<Rightarrow> world
     \<Rightarrow> py_error + (RunResult option \<times> TaskState \<times> locals \<times> world)" where
  "try_engines e eng task prompt ph step_name idx [] res ts loc w = Inr (res, ts, loc, w)"
| "try_engines e eng task prompt ph step_name idx (en # ens) res ts loc w =
     (case run_with_engine e eng task loc en prompt ph step_name w of
        Inl err \<Rightarrow> Inl err
      | Inr (result, w1) \<Rightarrow>
          if ok result
          then Inr (Some result,
                    (record_attempt e ph idx en result w1 ts)\<lparr>last_ok_engine := Some en\<rparr>,
                    note_attempt en result loc, w1)
          else try_engines e eng task prompt ph step_name idx ens (Some result)
                 (record_attempt e ph idx en result w1 ts) (note_attempt en result loc) w1)"

text \<open>The engine order of the MAIN phase: the row's engine if it has one, else the
  primary; then the fallbacks that are not that first engine.\<close>

definition engine_order :: "Task \<Rightarrow> string \<Rightarrow> string list \<Rightarrow> py_error + string list" where
  "engine_order task primary_engine fallback_engines =
     (case (if opt_truthy (task_engine task)
            then map_sum id Some (normalize_engine (the (task_engine task)))
            else Inr None) of
        Inl err \<Rightarrow> Inl err
      | Inr row_engine \<Rightarrow>
          (let first = (if opt_truthy row_engine then [the row_engine] else [primary_engine])
           in Inr (first @ filter (\<lambda>en. en \<notin> set first) fallback_engines)))"

text \<open>The engine order of a follow-up prompt.\<close>

definition after_engine_order :: "TaskState \<Rightarrow> string \<Rightarrow> string list \<Rightarrow> string list" where
  "after_engine_order ts primary_engine fallback_engines =
     (let last_ok = (if opt_truthy (last_ok_engine ts) then the (last_ok_engine ts) else primary_engine)
      in [last_ok, primary_engine]
         @ filter (\<lambda>en. en \<notin> {last_ok, primary_engine}) fallback_engines)"

text \<open>Decimal digits of a number, for \<^verbatim>\<open>f"after{idx+1}"\<close> and \<^verbatim>\<open>f"row{i+1}"\<close>.\<close>

fun digits :: "nat \<Rightarrow> nat \<Rightarrow> string" where
  "digits 0 n = []"
| "digits (Suc fuel) n =
     (if n < 10 then [''0123456789'' ! n] else digits fuel (n div 10) @ [''0123456789'' ! (n mod 10)])"

definition show_nat :: "nat \<Rightarrow> string" where
  "show_nat n = digits (Suc n) n"

definition state_file :: "Engine \<Rightarrow> string" where
  "state_file eng = app_dir eng @ ''/state.json''"

definition handoff_path :: "Engine \<Rightarrow> Task \<Rightarrow> string" where
  "handoff_path eng task = app_dir eng @ ''/handoff/'' @ task_id task @ ''.md''"

text \<open>
  One turn of the \<^verbatim>\<open>while\<close> loop of the AFTER phase once the pause wait is over and no
  stop is requested: the follow-up prompt at \<open>idx\<close> goes through its engine order, its
  outcome becomes the status, and the cursor moves to the next prompt and is saved.
\<close>

definition after_step ::
  "env \<Rightarrow> Engine \<Rightarrow> Task \<Rightarrow> string list \<Rightarrow> string \<Rightarrow> string list
     \<Rightarrow> Cursor \<Rightarrow> State \<Rightarrow> TaskState \<Rightarrow> locals \<Rightarrow> world
     \<Rightarrow> py_error + (Cursor \<times> State \<times> TaskState \<times> locals \<times> world)" where
  "after_step e eng task after_prompts primary_engine fallback_engines c st ts loc w =
     (let idx = after_index c;
          ap = after_prompts ! idx;
          step_name = ''after'' @ show_nat (idx + 1);
          prompt = build_after_prompt e ap (task_id task) (handoff_path eng task)
      in case try_engines e eng task prompt ''after'' step_name (Some idx)
                (after_engine_order ts primary_engine fallback_engines) None ts loc w of
           Inl err \<Rightarrow> Inl err
         | Inr (result, ts1, loc1, w1) \<Rightarrow>
             (let failed = (case result of None \<Rightarrow> True | Some r \<Rightarrow> \<not> ok r);
                  ts2 = ts1\<lparr>status := Some (if failed then ''after_failed''
                                               else ''after_ok_'' @ show_nat (idx + 1))\<rparr>;
                  c' = c\<lparr>after_index := after_index c + 1\<rparr>;
                  st' = put_tstate (set_cursor st c') (task_id task) ts2
              in Inr (c', st', ts2, loc1, save_state e (state_file eng) st' w1)))"

text \<open>
  The \<^verbatim>\<open>while\<close> loop of the AFTER phase and the end of \<^verbatim>\<open>run_task\<close>. \<open>None\<close>: the pause
  wait never returns. A stop request returns the cursor as it is.
\<close>

partial_function (option) after_phase ::
  "env \<Rightarrow> Engine \<Rightarrow> Task \<Rightarrow> string list \<Rightarrow> string \<Rightarrow> string list
     \<Rightarrow> Cursor \<Rightarrow> State \<Rightarrow> TaskState \<Rightarrow> locals \<Rightarrow> world
     \<Rightarrow> (py_error + (Cursor \<times> State \<times> world)) option" where
  "after_phase e eng task after_prompts primary_engine fallback_engines c st ts loc w =
     (if phase c = ''after'' \<and> after_index c < length after_prompts then
        (case ControlFiles_wait_if_paused e w of
           None \<Rightarrow> None
         | Some w1 \<Rightarrow>
             if should_stop w1 then Some (Inr (c, put_tstate st (task_id task) ts, w1))
             else
               (case after_step e eng task after_prompts primary_engine fallback_engines c st ts loc w1 of
                  Inl err \<Rightarrow> Some (Inl err)
                | Inr (c', st', ts', loc', w') \<Rightarrow>
                    after_phase e eng task after_prompts primary_engine fallback_engines
                      c' st' ts' loc' w'))
      else
        (let ts' = ts\<lparr>status := Some ''done''\<rparr>;
             c' = \<lparr>task_index = task_index c + 1, phase = ''main'', after_index = 0\<rparr>;
             st' = put_tstate (set_cursor st c') (task_id task) ts'
         in Some (Inr (c', st', save_state e (state_file eng) st' w))))"

text \<open>\<^verbatim>\<open>run_task\<close>. \<open>locals_of\<close> reads the session data of the task's dict into the
  local variables; \<open>main_engines\<close> is the \<^verbatim>\<open>for eng in engine_order\<close> loop of the MAIN
  phase.\<close>

definition locals_of :: "TaskState \<Rightarrow> locals" where
  "locals_of ts = \<lparr>claude_session = t_claude_session_id ts, codex_resume = codex_can_resume ts,
     gemini_token = t_gemini_resume ts\<rparr>"

definition main_engines ::
  "env \<Rightarrow> Engine \<Rightarrow> Task \<Rightarrow> string list \<Rightarrow> State \<Rightarrow> world
     \<Rightarrow> py_error + (RunResult option \<times> TaskState \<times> locals \<times> world)" where
  "main_engines e eng task order st w =
     try_engines e eng task (build_main_prompt e task (handoff_path eng task)) ''main'' ''run'' None
       order None (ensure_task_state st (task_id task))
       (locals_of (ensure_task_state st (task_id task))) w"

definition run_task ::
  "env \<Rightarrow> Engine \<Rightarrow> Task \<Rightarrow> string list \<Rightarrow> string \<Rightarrow> string list \<Rightarrow> State \<Rightarrow> Cursor \<Rightarrow> world
     \<Rightarrow> (py_error + (Cursor \<times> State \<times> world)) option" where
  "run_task e eng task after_prompts primary_engine fallback_engines st c w =
     (let ts = ensure_task_state st (task_id task);
          loc = locals_of ts
      in case engine_order task primary_engine fallback_engines of
           Inl err \<Rightarrow> Some (Inl err)
         | Inr order \<Rightarrow>
             if phase c = ''main'' then
               (case ControlFiles_wait_if_paused e w of
                  None \<Rightarrow> None
                | Some w1 \<Rightarrow>
                    if should_stop w1 then Some (Inr (c, put_tstate st (task_id task) ts, w1))
                    else
                      (case main_engines e eng task order st w1 of
                         Inl err \<Rightarrow> Some (Inl err)
                       | Inr (None, ts1, loc1, w2) \<Rightarrow> Some (Inl (RuntimeError ''No engine ran.''))
                       | Inr (Some result, ts1, loc1, w2) \<Rightarrow>
                           if \<not> ok result then
                             (let ts2 = ts1\<lparr>status := Some ''failed''\<rparr>;
                                  c' = \<lparr>task_index = task_index c + 1, phase = ''main'', after_index = 0\<rparr>
                              in Some (Inr (c', put_tstate (set_cursor st c') (task_id task) ts2, w2)))
                           else
                             (let ts2 = ts1\<lparr>status := Some ''main_ok''\<rparr>;
                                  c' = \<lparr>task_index = task_index c, phase = ''after'', after_index = 0\<rparr>;
                                  st' = put_tstate (set_cursor st c') (task_id task) ts2
                              in after_phase e eng task after_prompts primary_engine fallback_engines
                                   c' st' ts2 loc1 (save_state e (state_file eng) st' w2))))
             else after_phase e eng task after_prompts primary_engine fallback_engines
                    c (put_tstate st (task_id task) ts) ts loc w)"

text \<open>
  The \<^verbatim>\<open>while\<close> loop of \<^verbatim>\<open>main\<close>: the task under the cursor runs, the state is saved,
  and a stop request ends the run with exit code 0, as does the end of the list.
\<close>

partial_function (option) main_loop ::
  "env \<Rightarrow> Engine \<Rightarrow> Task list \<Rightarrow> string list \<Rightarrow> string \<Rightarrow> string list \<Rightarrow> State \<Rightarrow> Cursor \<Rightarrow> world
     \<Rightarrow> (py_error + (int \<times> State \<times> world)) option" where
  "main_loop e eng task_list after_prompts primary_engine fallback_engines st c w =
     (if task_index c < length task_list then
        (case run_task e eng (task_list ! task_index c) after_prompts primary_engine
                fallback_engines st c w of
           None \<Rightarrow> None
         | Some (Inl err) \<Rightarrow> Some (Inl err)
         | Some (Inr (c', st', w')) \<Rightarrow>
             (let w'' = save_state e (state_file eng) st' w' in
              if should_stop w'' then Some (Inr (0, st', w''))
              else main_loop e eng task_list after_prompts primary_engine fallback_engines st' c' w''))
      else Some (Inr (0, st, w)))"

text \<open>The start of agentflow's \<^verbatim>\<open>main\<close>, from the loading of the state to the loop:
  \<^verbatim>\<open>--start-task\<close> sets the cursor to that task (exit code 2 when there is none),
  otherwise a run without \<^verbatim>\<open>--resume\<close> sets it to the first task, and a run with
  \<^verbatim>\<open>--resume\<close> keeps the loaded cursor.\<close>

fun first_index :: "('a \<Rightarrow> bool) \<Rightarrow> 'a list \<Rightarrow> nat option" where
  "first_index P [] = None"
| "first_index P (x # xs) = (if P x then Some 0 else map_option Suc (first_index P xs))"

definition start_cursor ::
  "env \<Rightarrow> Engine \<Rightarrow> Task list \<Rightarrow> string option \<Rightarrow> bool \<Rightarrow> world \<Rightarrow> int + (Cursor \<times> State \<times> world)" where
  "start_cursor e eng task_list start_task resume w =
     (let (st, w1) = load_state e (state_file eng) w;
          c = get_cursor st
      in if opt_truthy start_task then
           (case first_index (\<lambda>t. task_id t = py_strip (the start_task)) task_list of
              None \<Rightarrow> Inl 2
            | Some idx \<Rightarrow>
                (let c' = \<lparr>task_index = idx, phase = ''main'', after_index = 0\<rparr>;
                     st' = set_cursor st c'
                 in Inr (c', st', save_state e (state_file eng) st' w1)))
         else if \<not> resume then
           (let c' = \<lparr>task_index = 0, phase = ''main'', after_index = 0\<rparr>;
                st' = set_cursor st c'
            in Inr (c', st', save_state e (state_file eng) st' w1))
         else Inr (c, st, w1))"

text \<open>agentflow's \<^verbatim>\<open>main\<close> once the arguments are read and the task list is loaded: the
  exit code and the world it leaves.\<close>

definition agentflow_main ::
  "env \<Rightarrow> Engine \<Rightarrow> Task list \<Rightarrow> string list \<Rightarrow> string \<Rightarrow> string list \<Rightarrow> string option \<Rightarrow> bool
     \<Rightarrow> world \<Rightarrow> (py_error + (int \<times> world)) option" where
  "agentflow_main e eng task_list after_prompts primary_engine fallback_engines start_task resume w =
     (if task_list = [] then Some (Inr (0, w))
      else
        (case start_cursor e eng task_list start_task resume w of
           Inl code \<Rightarrow> Some (Inr (code, w))
         | Inr (c, st, w1) \<Rightarrow>
             map_option (map_sum id (\<lambda>(code, st', w'). (code, w')))
               (main_loop e eng task_list after_prompts primary_engine fallback_engines st c w1)))"

definition corrupt_world :: world where
  "corrupt_world = (world0 False False)\<lparr>files := [''/r/.agentflow/state.json'' \<mapsto> ''{\"cursor\": {\"task_in'']\<rparr>"

definition demo_engine :: Engine where
  "demo_engine = \<lparr>repo = ''/r'', app_dir = ''/r/.agentflow'', include_dirs = [], autonomy = ''full_auto'',
     models = (\<lambda>n. None), gemini_resume = None, claude_allowed_tools = None\<rparr>"

definition demo_task :: "string \<Rightarrow> Task" where
  "demo_task tid = \<lparr>task_id = tid, spec = ''Add the settings page'', title = ''Settings'',
     task_engine = None\<rparr>"

text \<open>Example: a claude process that exits with code 0 and prints a payload that reports
  an error.\<close>

definition claude_error_payload :: string where
  "claude_error_payload =
     ''{\"type\": \"result\", \"subtype\": \"error\", \"is_error\": true, \"result\": \"Credit balance is too low\", \"session_id\": \"c-1\"}''"

definition claude_error_env :: env where
  "claude_error_env = idle_env\<lparr>
     proc := (\<lambda>t c i. Some \<lparr>po_rc = 0, po_lines = [claude_error_payload], po_err = [], po_wrote = []\<rparr>),
     which := (\<lambda>b. True),
     json_loads := map_of
       [(claude_error_payload,
         JObj [(''type'', JStr ''result''), (''subtype'', JStr ''error''), (''is_error'', JBool True),
               (''result'', JStr ''Credit balance is too low''), (''session_id'', JStr ''c-1'')])]\<rparr>"

section \<open>agent_csv_runner.py: verification\<close>

text \<open>
  \<^verbatim>\<open>run_verify\<close>: for each of the keys \<^verbatim>\<open>format\<close>, \<^verbatim>\<open>lint\<close>, \<^verbatim>\<open>test\<close>, in this order,
  the command configured under the key, stripped; an empty command is skipped; a
  command that exits non-zero adds the pair of the command and its stripped output to
  the failures. \<open>commands\<close> holds the items of the \<^verbatim>\<open>commands\<close> dict.
\<close>

definition verify_command :: "(string \<times> string) list \<Rightarrow> string \<Rightarrow> string" where
  "verify_command commands key = py_strip (case map_of commands key of None \<Rightarrow> [] | Some c \<Rightarrow> c)"

fun run_verify_keys ::
  "env \<Rightarrow> (string \<times> string) list \<Rightarrow> string list \<Rightarrow> (string \<times> string) list \<Rightarrow> world
     \<Rightarrow> py_error + ((string \<times> string) list \<times> world)" where
  "run_verify_keys e commands [] failures w = Inr (failures, w)"
| "run_verify_keys e commands (key # keys) failures w =
     (let c = verify_command commands key in
      if c = [] then run_verify_keys e commands keys failures w
      else
        (case run e w [''bash'', ''-lc'', c] None of
           Inl err \<Rightarrow> Inl err
         | Inr (rr, w') \<Rightarrow>
             if returncode rr \<noteq> 0
             then run_verify_keys e commands keys
                    (failures @ [(c, py_strip (rr_stdout rr @ [CHR 0x0A] @ rr_stderr rr))]) w'
             else run_verify_keys e commands keys failures w'))"

definition run_verify ::
  "env \<Rightarrow> (string \<times> string) list \<Rightarrow> world \<Rightarrow> py_error + ((string \<times> string) list \<times> world)" where
  "run_verify e commands w = run_verify_keys e commands [''format'', ''lint'', ''test''] [] w"

text \<open>The commands the verify step is to run: the non-empty stripped commands of the
  three keys, in the order of the keys.\<close>

definition checks_to_run :: "(string \<times> string) list \<Rightarrow> string list \<Rightarrow> string list" where
  "checks_to_run commands keys = filter (\<lambda>c. c \<noteq> []) (map (verify_command commands) keys)"

text \<open>What the check \<open>c\<close>, run as the \<open>i\<close>-th process after the time \<open>t\<close>, adds to the
  failures.\<close>

definition check_failure :: "env \<Rightarrow> nat \<Rightarrow> nat \<times> string \<Rightarrow> (string \<times> string) list" where
  "check_failure e t ic =
     (case proc e (t + fst ic) [''bash'', ''-lc'', snd ic] None of
        None \<Rightarrow> []
      | Some po \<Rightarrow>
          if po_rc po \<noteq> 0
          then [(snd ic, py_strip (concat (po_lines po) @ [CHR 0x0A] @ po_err po))]
          else [])"

definition bash_found :: "env \<Rightarrow> bool" where
  "bash_found e = (\<forall>t c. proc e t (''bash'' # c) None \<noteq> None)"

text \<open>Example: every check but \<^verbatim>\<open>composer format\<close> exits with code 1.\<close>

definition verify_env :: env where
  "verify_env = idle_env\<lparr>
     proc := (\<lambda>t c i. Some (if c = [''bash'', ''-lc'', ''composer format'']
                              then \<lparr>po_rc = 0, po_lines = [], po_err = [], po_wrote = []\<rparr>
                              else \<lparr>po_rc = 1, po_lines = [''FAILED'' @ [CHR 0x0A]], po_err = ''boom'',
                                    po_wrote = []\<rparr>))\<rparr>"

text \<open>The engine names \<^verbatim>\<open>run_with_engine\<close> knows; \<^verbatim>\<open>normalize_engine\<close> yields no
  other.\<close>

definition known_engine :: "string \<Rightarrow> bool" where
  "known_engine en = (en = ''codex'' \<or> en = ''claude'' \<or> en = ''gemini'')"

definition last_ok_known :: "TaskState \<Rightarrow> bool" where
  "last_ok_known ts = (case last_ok_engine ts of None \<Rightarrow> True | Some en \<Rightarrow> en = [] \<or> known_engine en)"

text \<open>Nobody touches the markers, and neither is present.\<close>

definition undisturbed :: "env \<Rightarrow> world \<Rightarrow> bool" where
  "undisturbed e w = (user e = (\<lambda>t m. m) \<and> \<not> should_pause w \<and> \<not> should_stop w)"

text \<open>Example: every engine is installed; a process fails exactly when its prompt is
  \<^verbatim>\<open>second\<close> (the prompt is the standard input of codex and the last argument of
  claude and gemini); the prompt of a follow-up is the follow-up text itself.\<close>

definition followup_env :: env where
  "followup_env = idle_env\<lparr>
     proc := (\<lambda>t c i. Some \<lparr>po_rc = (if i = Some ''second'' \<or> last c = ''second'' then 1 else 0),
                              po_lines = [], po_err = [], po_wrote = []\<rparr>),
     which := (\<lambda>b. True),
     build_after_prompt := (\<lambda>a t h. a)\<rparr>"

definition after_cursor :: "nat \<Rightarrow> Cursor" where
  "after_cursor i = \<lparr>task_index = 0, phase = ''after'', after_index = i\<rparr>"

text \<open>What an entry of the history says about a follow-up: its index, the engine and the
  outcome.\<close>

definition attempt_of :: "StepRecord \<Rightarrow> nat option \<times> string \<times> bool" where
  "attempt_of r = (sr_after_index r, sr_engine r, sr_ok r)"

definition history_after ::
  "(py_error + (Cursor \<times> State \<times> world)) option \<Rightarrow> string \<Rightarrow> (nat option \<times> string \<times> bool) list" where
  "history_after res tid =
     (case res of
        Some (Inr (c, st, w)) \<Rightarrow> (case tasks st tid of Some ts \<Rightarrow> map attempt_of (history ts) | None \<Rightarrow> [])
      | _ \<Rightarrow> [])"

definition cursor_after :: "(py_error + (Cursor \<times> State \<times> world)) option \<Rightarrow> Cursor option" where
  "cursor_after res = (case res of Some (Inr (c, st, w)) \<Rightarrow> Some c | _ \<Rightarrow> None)"

text \<open>The entries the follow-up prompts leave, prompt by prompt: a list of groups, one for
  each index in turn, none empty; within a group every entry but the last is a failure,
  and the last one is the outcome of the prompt.\<close>

definition followup_groups :: "StepRecord list list \<Rightarrow> nat list \<Rightarrow> bool" where
  "followup_groups groups indices =
     list_all2 (\<lambda>g j. g \<noteq> [] \<and>
                     list_all (\<lambda>r. sr_phase r = ''after'' \<and> sr_after_index r = Some j) g \<and>
                     list_all (\<lambda>r. \<not> sr_ok r) (butlast g))
       groups indices"

section \<open>agent_csv_runner.py: task ids\<close>





section \<open>agent_csv_runner.py: main\<close>


text \<open>The variables of \<^verbatim>\<open>main\<close> that change during the run, with the world.\<close>

record run_state =
  done_ids :: "string set"
  claude_sessions :: "string \<rightharpoonup> string"
  gemini_sessions :: "string \<rightharpoonup> string"
  rworld :: world

text \<open>How a piece of \<^verbatim>\<open>main\<close> ends: an exception, a \<^verbatim>\<open>return\<close> of \<^verbatim>\<open>main\<close> with its exit
  code, or going on with a value. A piece that waits on the pause marker may never
  end, which is \<open>None\<close>.\<close>

datatype 'a step = Raise py_error | Return int run_state | Go 'a


























text \<open>Example: every engine is installed and every process exits with code 1.\<close>

definition failing_env :: env where
  "failing_env = idle_env\<lparr>
     proc := (\<lambda>t c i. Some \<lparr>po_rc = 1, po_lines = [], po_err = [], po_wrote = []\<rparr>),
     which := (\<lambda>b. True)\<rparr>"






section \<open>agentflow.py: loading the task list\<close>









section \<open>Properties of the pause wait\<close>

lemma after_polls_0: "after_polls e 0 w = w"
  by (simp add: after_polls_def)

lemma after_polls_Suc: "after_polls e (Suc n) w = after_polls e n (sleep e w)"
  by (simp add: after_polls_def funpow_swap1)

lemma ControlFiles_wait_returns:
  "(\<And>j. j < n \<Longrightarrow> should_pause (after_polls e j w)) \<Longrightarrow> \<not> should_pause (after_polls e n w)
   \<Longrightarrow> ControlFiles_wait_if_paused e w = Some (after_polls e n w)"
proof (induction n arbitrary: w)
  case 0
  then show ?case
    by (simp add: ControlFiles_wait_if_paused.simps after_polls_0)
next
  case (Suc n)
  have p: "should_pause w"
    using Suc.prems(1) [of 0] by (simp add: after_polls_0)
  have "ControlFiles_wait_if_paused e (sleep e w) = Some (after_polls e n (sleep e w))"
  proof (rule Suc.IH)
    fix j assume "j < n"
    then show "should_pause (after_polls e j (sleep e w))"
      using Suc.prems(1) [of "Suc j"] by (simp add: after_polls_Suc)
  next
    show "\<not> should_pause (after_polls e n (sleep e w))"
      using Suc.prems(2) by (simp add: after_polls_Suc)
  qed
  with p show ?case
    by (subst ControlFiles_wait_if_paused.simps) (simp add: after_polls_Suc)
qed

lemma ControlFiles_wait_Some_polls:
  assumes "ControlFiles_wait_if_paused e w = Some r"
  shows "\<exists>n. \<not> should_pause (after_polls e n w)"
proof (rule ControlFiles_wait_if_paused.raw_induct
    [where P = "\<lambda>e w r. \<exists>n. \<not> should_pause (after_polls e n w)", OF _ assms])
  fix f e w r
  assume IH: "\<And>e w r. f e w = Some r \<Longrightarrow> \<exists>n. \<not> should_pause (after_polls e n w)"
    and eq: "(if should_pause w then f e (sleep e w) else Some w) = Some r"
  show "\<exists>n. \<not> should_pause (after_polls e n w)"
  proof (cases "should_pause w")
    case True
    with eq have "f e (sleep e w) = Some r"
      by simp
    from IH [OF this] obtain n where "\<not> should_pause (after_polls e n (sleep e w))" ..
    then have "\<not> should_pause (after_polls e (Suc n) w)"
      by (simp add: after_polls_Suc)
    then show ?thesis ..
  next
    case False
    then have "\<not> should_pause (after_polls e 0 w)"
      by (simp add: after_polls_0)
    then show ?thesis ..
  qed
qed

lemma ControlFiles_wait_never:
  "(\<And>n. should_pause (after_polls e n w)) \<Longrightarrow> ControlFiles_wait_if_paused e w = None"
  using ControlFiles_wait_Some_polls [of e w] by (cases "ControlFiles_wait_if_paused e w") auto

lemma wait_returns:
  "(\<And>j. j < n \<Longrightarrow> blocked e j w) \<Longrightarrow> \<not> blocked e n w
   \<Longrightarrow> wait_if_paused e w = Some (after_polls e n w)"
proof (induction n arbitrary: w)
  case 0
  then show ?case
    by (subst wait_if_paused.simps) (auto simp: blocked_def after_polls_0)
next
  case (Suc n)
  have p: "should_pause w \<and> \<not> should_stop w"
    using Suc.prems(1) [of 0] by (simp add: after_polls_0 blocked_def)
  have "wait_if_paused e (sleep e w) = Some (after_polls e n (sleep e w))"
  proof (rule Suc.IH)
    fix j assume "j < n"
    then show "blocked e j (sleep e w)"
      using Suc.prems(1) [of "Suc j"] by (simp add: after_polls_Suc blocked_def)
  next
    show "\<not> blocked e n (sleep e w)"
      using Suc.prems(2) by (simp add: after_polls_Suc blocked_def)
  qed
  with p show ?case
    by (subst wait_if_paused.simps) (simp add: after_polls_Suc)
qed

lemma wait_Some_polls:
  assumes "wait_if_paused e w = Some r"
  shows "\<exists>n. \<not> blocked e n w"
proof (rule wait_if_paused.raw_induct [where P = "\<lambda>e w r. \<exists>n. \<not> blocked e n w", OF _ assms])
  fix f e w r
  assume IH: "\<And>e w r. f e w = Some r \<Longrightarrow> \<exists>n. \<not> blocked e n w"
    and eq: "(if should_pause w then (if should_stop w then Some w else f e (sleep e w))
              else Some w) = Some r"
  show "\<exists>n. \<not> blocked e n w"
  proof (cases "should_pause w \<and> \<not> should_stop w")
    case True
    with eq have "f e (sleep e w) = Some r"
      by simp
    from IH [OF this] obtain n where "\<not> blocked e n (sleep e w)" ..
    then have "\<not> blocked e (Suc n) w"
      by (simp add: after_polls_Suc blocked_def)
    then show ?thesis ..
  next
    case False
    then have "\<not> blocked e 0 w"
      by (simp add: after_polls_0 blocked_def)
    then show ?thesis ..
  qed
qed

lemma wait_never:
  "(\<And>n. blocked e n w) \<Longrightarrow> wait_if_paused e w = None"
  using wait_Some_polls [of e w] by (cases "wait_if_paused e w") auto

lemma marks_after_polls_idle:
  "user e = (\<lambda>t m. m) \<Longrightarrow> marks (after_polls e n w) = marks w"
  by (induction n arbitrary: w) (simp_all add: after_polls_0 after_polls_Suc sleep_def)

text \<open>
  C4, as the code has it. The runner's \<^verbatim>\<open>wait_if_paused\<close> returns at the first poll
  where the pause marker is gone or the stop marker is there (at once when both markers
  are present), and never returns when every poll finds the pause marker without the
  stop marker. agentflow's \<^verbatim>\<open>ControlFiles.wait_if_paused\<close> returns at the first
  poll where the pause marker is gone, whatever the stop marker, and never returns
  while the pause marker stays.
\<close>

theorem pause_wait_ends:
  "((\<forall>j<n. blocked e j w) \<and> \<not> blocked e n w
      \<longrightarrow> wait_if_paused e w = Some (after_polls e n w)) \<and>
   (should_pause w \<and> should_stop w \<longrightarrow> wait_if_paused e w = Some w) \<and>
   ((\<forall>j. blocked e j w) \<longrightarrow> wait_if_paused e w = None) \<and>
   ((\<forall>j<n. should_pause (after_polls e j w)) \<and> \<not> should_pause (after_polls e n w)
      \<longrightarrow> ControlFiles_wait_if_paused e w = Some (after_polls e n w)) \<and>
   ((\<forall>j. should_pause (after_polls e j w)) \<longrightarrow> ControlFiles_wait_if_paused e w = None)"
proof (intro conjI impI)
  assume "(\<forall>j<n. blocked e j w) \<and> \<not> blocked e n w"
  then show "wait_if_paused e w = Some (after_polls e n w)"
    by (intro wait_returns) auto
next
  assume "should_pause w \<and> should_stop w"
  then show "wait_if_paused e w = Some w"
    by (subst wait_if_paused.simps) simp
next
  assume "\<forall>j. blocked e j w"
  then show "wait_if_paused e w = None"
    by (intro wait_never) auto
next
  assume "(\<forall>j<n. should_pause (after_polls e j w)) \<and> \<not> should_pause (after_polls e n w)"
  then show "ControlFiles_wait_if_paused e w = Some (after_polls e n w)"
    by (intro ControlFiles_wait_returns) auto
next
  assume "\<forall>j. should_pause (after_polls e j w)"
  then show "ControlFiles_wait_if_paused e w = None"
    by (intro ControlFiles_wait_never) auto
qed

lemma user_idle_env: "user idle_env = (\<lambda>t m. m)"
  by (simp add: idle_env_def)

lemma release_polls:
  "marks (after_polls release_env 0 (world0 True False)) = \<lparr>pause_exists = True, stop_exists = False\<rparr>"
  "marks (after_polls release_env (Suc 0) (world0 True False)) = \<lparr>pause_exists = True, stop_exists = False\<rparr>"
  "marks (after_polls release_env 2 (world0 True False)) = \<lparr>pause_exists = False, stop_exists = False\<rparr>"
  by (simp_all add: after_polls_def sleep_def release_env_def idle_env_def world0_def numeral_2_eq_2)

theorem pause_wait_ends_witness:
  "wait_if_paused release_env (world0 True False) = Some (after_polls release_env 2 (world0 True False)) \<and>
   ControlFiles_wait_if_paused release_env (world0 True False)
     = Some (after_polls release_env 2 (world0 True False)) \<and>
   wait_if_paused idle_env (world0 True True) = Some (world0 True True) \<and>
   wait_if_paused idle_env (world0 True False) = None \<and>
   ControlFiles_wait_if_paused idle_env (world0 True False) = None"
proof -
  have b2: "(\<forall>j<2. blocked release_env j (world0 True False)) \<and> \<not> blocked release_env 2 (world0 True False)"
    using release_polls by (auto simp: blocked_def should_pause_def should_stop_def less_2_cases_iff)
  have p2: "(\<forall>j<2. should_pause (after_polls release_env j (world0 True False)))
      \<and> \<not> should_pause (after_polls release_env 2 (world0 True False))"
    using release_polls by (auto simp: should_pause_def less_2_cases_iff)
  have both: "should_pause (world0 True True) \<and> should_stop (world0 True True)"
    by (simp add: should_pause_def should_stop_def world0_def)
  have forever: "\<forall>j. blocked idle_env j (world0 True False)"
    by (simp add: blocked_def should_pause_def should_stop_def marks_after_polls_idle [OF user_idle_env]
        world0_def)
  then have forever': "\<forall>j. should_pause (after_polls idle_env j (world0 True False))"
    by (simp add: blocked_def)
  show ?thesis
    using pause_wait_ends [of 2 release_env "world0 True False"]
      pause_wait_ends [of 0 idle_env "world0 True True"]
      pause_wait_ends [of 0 idle_env "world0 True False"]
      b2 p2 both forever forever'
    by blast
qed

text \<open>
  C4 as stated fails for agentflow: with both markers present and nobody removing the
  pause marker, \<^verbatim>\<open>ControlFiles.wait_if_paused\<close> never returns.
\<close>

theorem pause_wait_both_markers_counterexample:
  "should_pause (world0 True True) \<and> should_stop (world0 True True) \<and>
   ControlFiles_wait_if_paused idle_env (world0 True True) = None"
proof -
  have "\<And>n. should_pause (after_polls idle_env n (world0 True True))"
    by (simp add: should_pause_def marks_after_polls_idle [OF user_idle_env] world0_def)
  then have "ControlFiles_wait_if_paused idle_env (world0 True True) = None"
    by (rule ControlFiles_wait_never)
  then show ?thesis
    by (simp add: should_pause_def should_stop_def world0_def)
qed

section \<open>The runner's gemini backend on a stream of events\<close>

lemma handle_line_step:
  assumes "accepted_line e l"
  shows "\<exists>st1. handle_line e (rstrip_newlines l) st = Inr st1 \<and>
           (errors st1 \<noteq> [] \<longleftrightarrow> errors st \<noteq> [] \<or> is_error_event e l) \<and>
           result_status st1 =
             (case result_event_status e l of None \<Rightarrow> result_status st | Some s \<Rightarrow> Some (py_lower s)) \<and>
           session_id st1 =
             (case init_event_session e l of None \<Rightarrow> session_id st | Some s \<Rightarrow> Some s)"
  using assms
  by (auto simp: handle_line_def accepted_line_def is_error_event_def result_event_status_def
      init_event_session_def event_of_def Let_def split: option.splits json.splits)

lemma feed_lines_handle_line:
  assumes "list_all (accepted_line e) ls"
  shows "\<exists>st'. feed_lines (handle_line e) ls st = Inr st' \<and>
           (errors st' \<noteq> [] \<longleftrightarrow> errors st \<noteq> [] \<or> list_ex (is_error_event e) ls) \<and>
           result_status st' =
             (case last_with (result_event_status e) ls of
                None \<Rightarrow> result_status st | Some s \<Rightarrow> Some (py_lower s)) \<and>
           session_id st' =
             (case last_with (init_event_session e) ls of None \<Rightarrow> session_id st | Some s \<Rightarrow> Some s)"
  using assms
proof (induction ls arbitrary: st)
  case Nil
  then show ?case by simp
next
  case (Cons l ls)
  then have a: "accepted_line e l" and as: "list_all (accepted_line e) ls"
    by simp_all
  from handle_line_step [OF a, of st] obtain st1 where
    h: "handle_line e (rstrip_newlines l) st = Inr st1"
    and e1: "errors st1 \<noteq> [] \<longleftrightarrow> errors st \<noteq> [] \<or> is_error_event e l"
    and r1: "result_status st1 =
             (case result_event_status e l of None \<Rightarrow> result_status st | Some s \<Rightarrow> Some (py_lower s))"
    and s1: "session_id st1 =
             (case init_event_session e l of None \<Rightarrow> session_id st | Some s \<Rightarrow> Some s)"
    by blast
  from Cons.IH [OF as, of st1] obtain st' where
    f: "feed_lines (handle_line e) ls st1 = Inr st'"
    and e2: "errors st' \<noteq> [] \<longleftrightarrow> errors st1 \<noteq> [] \<or> list_ex (is_error_event e) ls"
    and r2: "result_status st' =
             (case last_with (result_event_status e) ls of
                None \<Rightarrow> result_status st1 | Some s \<Rightarrow> Some (py_lower s))"
    and s2: "session_id st' =
             (case last_with (init_event_session e) ls of None \<Rightarrow> session_id st1 | Some s \<Rightarrow> Some s)"
    by blast
  have "feed_lines (handle_line e) (l # ls) st = Inr st'"
    using h f by simp
  moreover have "errors st' \<noteq> [] \<longleftrightarrow> errors st \<noteq> [] \<or> list_ex (is_error_event e) (l # ls)"
    using e1 e2 by auto
  moreover have "result_status st' =
             (case last_with (result_event_status e) (l # ls) of
                None \<Rightarrow> result_status st | Some s \<Rightarrow> Some (py_lower s))"
    using r1 r2 by (simp split: option.splits)
  moreover have "session_id st' =
             (case last_with (init_event_session e) (l # ls) of None \<Rightarrow> session_id st | Some s \<Rightarrow> Some s)"
    using s1 s2 by (simp split: option.splits)
  ultimately show ?case by blast
qed

lemma gemini_run_stream:
  assumes "gemini_outfmt e g sessions = ''stream-json''"
    and "proc e (clock w) (gemini_cmd e args g sessions) (Some prompt) = Some po"
    and "list_all (accepted_line e) (po_lines po)"
  shows "\<exists>rr sid s' w'. gemini_run e args g sessions prompt w = Inr (rr, sid, s', w') \<and>
      (returncode rr = 0 \<longleftrightarrow>
         po_rc po = 0 \<and> \<not> list_ex (is_error_event e) (po_lines po) \<and>
         (case last_with (result_event_status e) (po_lines po) of
            None \<Rightarrow> True
          | Some s \<Rightarrow> py_lower s = [] \<or> py_lower s = ''success'')) \<and>
      sid = (case last_with (init_event_session e) (po_lines po) of
               None \<Rightarrow> gemini_session_id sessions
             | Some s \<Rightarrow> Some s) \<and>
      gemini_session_id s' = sid"
proof -
  let ?st0 = "\<lparr>session_id = gemini_session_id sessions, result_status = None,
               errors = [], assistant_chunks = []\<rparr>"
  from feed_lines_handle_line [OF assms(3), of ?st0] obtain st where
    f: "feed_lines (handle_line e) (po_lines po) ?st0 = Inr st"
    and er0: "errors st \<noteq> [] \<longleftrightarrow> errors ?st0 \<noteq> [] \<or> list_ex (is_error_event e) (po_lines po)"
    and rs0: "result_status st =
             (case last_with (result_event_status e) (po_lines po) of
                None \<Rightarrow> result_status ?st0 | Some s \<Rightarrow> Some (py_lower s))"
    and ss0: "session_id st =
             (case last_with (init_event_session e) (po_lines po) of
                None \<Rightarrow> session_id ?st0 | Some s \<Rightarrow> Some s)"
    by blast
  have er: "errors st \<noteq> [] \<longleftrightarrow> list_ex (is_error_event e) (po_lines po)"
    using er0 by simp
  have rs: "result_status st =
             (case last_with (result_event_status e) (po_lines po) of
                None \<Rightarrow> None | Some s \<Rightarrow> Some (py_lower s))"
    using rs0 by (simp split: option.splits)
  have ss: "session_id st =
             (case last_with (init_event_session e) (po_lines po) of
                None \<Rightarrow> gemini_session_id sessions | Some s \<Rightarrow> Some s)"
    using ss0 by (simp split: option.splits)
  have run: "gemini_run e args g sessions prompt w =
      Inr (\<lparr>cmd = gemini_cmd e args g sessions, returncode = stream_effective_rc (po_rc po) st,
            rr_stdout = concat (po_lines po), rr_stderr = []\<rparr>,
           session_id st, sessions\<lparr>gemini_session_id := session_id st\<rparr>,
           (sleep e w)\<lparr>files := files w ++ map_of (po_wrote po),
                        spawned := spawned w @ [gemini_cmd e args g sessions]\<rparr>)"
    using assms(1,2) f by (simp add: gemini_run_def run_stream_lines_def spawn_def Let_def)
  have rc: "stream_effective_rc (po_rc po) st = 0 \<longleftrightarrow>
         po_rc po = 0 \<and> \<not> list_ex (is_error_event e) (po_lines po) \<and>
         (case last_with (result_event_status e) (po_lines po) of
            None \<Rightarrow> True
          | Some s \<Rightarrow> py_lower s = [] \<or> py_lower s = ''success'')"
    using er rs by (auto simp: stream_effective_rc_def opt_truthy_def split: option.splits)
  show ?thesis
    using run rc ss by simp
qed

lemma demo_stream_facts:
  "gemini_outfmt (stream_env ls) [] no_sessions = ''stream-json''"
  "proc (stream_env ls) t c (Some p) = Some \<lparr>po_rc = 0, po_lines = map (\<lambda>l. l @ [CHR 0x0A]) ls, po_err = [], po_wrote = []\<rparr>"
  by (simp_all add: gemini_outfmt_def stream_env_def idle_env_def dict_get_def dict_get_default_def
      py_or_def py_str_def py_strip_def is_space_def opt_truthy_def no_sessions_def Let_def)

lemma demo_lines:
  "event_of (stream_env ls) (line_init @ [CHR 0x0A]) = Some [(''type'', JStr ''init''), (''session_id'', JStr ''s-1'')]"
  "event_of (stream_env ls) (line_error @ [CHR 0x0A]) = Some [(''type'', JStr ''error''), (''message'', JStr ''quota exceeded'')]"
  "event_of (stream_env ls) (line_result_blank @ [CHR 0x0A]) = Some [(''type'', JStr ''result''), (''status'', JStr [])]"
  by (simp_all add: event_of_def stream_env_def idle_env_def demo_loads_def rstrip_newlines_def
      line_init_def line_error_def line_result_blank_def)

text \<open>
  C1, as the code has it. When \<^verbatim>\<open>gemini_run\<close> takes the \<^verbatim>\<open>stream-json\<close> path and every line
  of the stream is either not JSON or a JSON object, the call returns, and its return
  code is non-zero when the stream holds an \<^verbatim>\<open>error\<close> event, when the last \<^verbatim>\<open>result\<close>
  event has a status that, in lower case, is neither empty nor \<^verbatim>\<open>success\<close>, or when
  the process exits non-zero. The session id of the last \<^verbatim>\<open>init\<close> event with a
  non-empty session id is returned and stored as the resume token.
\<close>

theorem gemini_stream_failure:
  assumes "gemini_outfmt e g sessions = ''stream-json''"
    and "proc e (clock w) (gemini_cmd e args g sessions) (Some prompt) = Some po"
    and "list_all (accepted_line e) (po_lines po)"
  shows "\<exists>rr sid s' w'. gemini_run e args g sessions prompt w = Inr (rr, sid, s', w') \<and>
      (list_ex (is_error_event e) (po_lines po) \<longrightarrow> returncode rr \<noteq> 0) \<and>
      (\<forall>s. last_with (result_event_status e) (po_lines po) = Some s \<and>
           py_lower s \<noteq> [] \<and> py_lower s \<noteq> ''success'' \<longrightarrow> returncode rr \<noteq> 0) \<and>
      (po_rc po \<noteq> 0 \<longrightarrow> returncode rr \<noteq> 0) \<and>
      (\<forall>s. last_with (init_event_session e) (po_lines po) = Some s
           \<longrightarrow> sid = Some s \<and> gemini_session_id s' = Some s)"
proof -
  from gemini_run_stream [OF assms] obtain rr sid s' w' where
    r: "gemini_run e args g sessions prompt w = Inr (rr, sid, s', w')"
    and rc: "returncode rr = 0 \<longleftrightarrow>
         po_rc po = 0 \<and> \<not> list_ex (is_error_event e) (po_lines po) \<and>
         (case last_with (result_event_status e) (po_lines po) of
            None \<Rightarrow> True
          | Some s \<Rightarrow> py_lower s = [] \<or> py_lower s = ''success'')"
    and sid: "sid = (case last_with (init_event_session e) (po_lines po) of
               None \<Rightarrow> gemini_session_id sessions
             | Some s \<Rightarrow> Some s)"
    and s': "gemini_session_id s' = sid"
    by blast
  have "list_ex (is_error_event e) (po_lines po) \<longrightarrow> returncode rr \<noteq> 0"
    using rc by blast
  moreover have "\<forall>s. last_with (result_event_status e) (po_lines po) = Some s \<and>
           py_lower s \<noteq> [] \<and> py_lower s \<noteq> ''success'' \<longrightarrow> returncode rr \<noteq> 0"
    using rc by auto
  moreover have "po_rc po \<noteq> 0 \<longrightarrow> returncode rr \<noteq> 0"
    using rc by blast
  moreover have "\<forall>s. last_with (init_event_session e) (po_lines po) = Some s
           \<longrightarrow> sid = Some s \<and> gemini_session_id s' = Some s"
    using sid s' by simp
  ultimately show ?thesis
    using r by blast
qed

theorem gemini_stream_failure_witness:
  "returned_code (gemini_run (stream_env [line_init, line_error]) (\<lambda>f. [''--output-format'', f]) []
      no_sessions ''implement T1-1'' (world0 False False)) \<noteq> None \<and>
   returned_code (gemini_run (stream_env [line_init, line_error]) (\<lambda>f. [''--output-format'', f]) []
      no_sessions ''implement T1-1'' (world0 False False)) \<noteq> Some 0 \<and>
   returned_session (gemini_run (stream_env [line_init, line_error]) (\<lambda>f. [''--output-format'', f]) []
      no_sessions ''implement T1-1'' (world0 False False)) = Some ''s-1''"
proof -
  let ?e = "stream_env [line_init, line_error]"
  let ?po = "\<lparr>po_rc = 0, po_lines = map (\<lambda>l. l @ [CHR 0x0A]) [line_init, line_error], po_err = [], po_wrote = []\<rparr>"
  have acc: "list_all (accepted_line ?e) (po_lines ?po)"
    using demo_lines [of "[line_init, line_error]"]
    by (auto simp: accepted_line_def event_of_def split: option.splits json.splits)
  have err: "list_ex (is_error_event ?e) (po_lines ?po)"
    by (simp add: is_error_event_def demo_lines dict_get_def)
  have ini: "last_with (init_event_session ?e) (po_lines ?po) = Some ''s-1''"
    by (simp add: init_event_session_def demo_lines dict_get_def py_str_def)
  from gemini_stream_failure [of ?e "[]" no_sessions "world0 False False"
      "\<lambda>f. [''--output-format'', f]" "''implement T1-1''" ?po, OF demo_stream_facts acc]
  show ?thesis
    using err ini by (auto simp: returned_code_def returned_session_def)
qed

text \<open>
  C1 as stated fails: a stream that ends with a \<^verbatim>\<open>result\<close> event whose status is the
  empty string (which is not \<^verbatim>\<open>success\<close>), from a process that exits with code 0, is
  returned with return code 0.
\<close>

theorem gemini_stream_blank_status_counterexample:
  "result_event_status (stream_env [line_init, line_result_blank]) (line_result_blank @ [CHR 0x0A])
     = Some [] \<and>
   returned_code (gemini_run (stream_env [line_init, line_result_blank]) (\<lambda>f. [''--output-format'', f]) []
      no_sessions ''implement T1-1'' (world0 False False)) = Some 0"
proof -
  let ?e = "stream_env [line_init, line_result_blank]"
  let ?po = "\<lparr>po_rc = 0, po_lines = map (\<lambda>l. l @ [CHR 0x0A]) [line_init, line_result_blank], po_err = [], po_wrote = []\<rparr>"
  have acc: "list_all (accepted_line ?e) (po_lines ?po)"
    using demo_lines [of "[line_init, line_result_blank]"]
    by (auto simp: accepted_line_def event_of_def split: option.splits json.splits)
  have err: "\<not> list_ex (is_error_event ?e) (po_lines ?po)"
    by (simp add: is_error_event_def demo_lines dict_get_def)
  have st: "result_event_status ?e (line_result_blank @ [CHR 0x0A]) = Some []"
    by (simp add: result_event_status_def demo_lines dict_get_def py_str_def py_or_def)
  have res: "last_with (result_event_status ?e) (po_lines ?po) = Some []"
    using st by simp
  from gemini_run_stream [of ?e "[]" no_sessions "world0 False False"
      "\<lambda>f. [''--output-format'', f]" "''implement T1-1''" ?po, OF demo_stream_facts acc]
  have "returned_code (gemini_run ?e (\<lambda>f. [''--output-format'', f]) []
      no_sessions ''implement T1-1'' (world0 False False)) = Some 0"
    using err res by (auto simp: returned_code_def py_lower_def)
  with st show ?thesis by simp
qed

section \<open>Loading a state file that does not parse\<close>

text \<open>
  C10. When the state file exists and does not parse, \<^verbatim>\<open>load_state\<close> copies it to
  \<^verbatim>\<open>state.corrupt.<stamp>.json\<close> and returns the default state: cursor at task 0,
  phase \<^verbatim>\<open>main\<close>, follow-up 0, and no task entries. A run started with \<^verbatim>\<open>--resume\<close>
  (and no \<^verbatim>\<open>--start-task\<close>) then enters the loop with that cursor, so it runs from the
  first task, without an error.
\<close>

theorem load_state_corrupt_restarts:
  assumes "files w (state_file eng) = Some content" and "loads e content = None"
    and "task_list \<noteq> []"
  shows "load_state e (state_file eng) w =
           (default_state,
            w\<lparr>files := (files w)(with_suffix (state_file eng)
                                    (''.corrupt.'' @ now_stamp e (clock w) @ ''.json'') \<mapsto> content)\<rparr>) \<and>
         get_cursor (fst (load_state e (state_file eng) w))
           = \<lparr>task_index = 0, phase = ''main'', after_index = 0\<rparr> \<and>
         tasks (fst (load_state e (state_file eng) w)) = Map.empty \<and>
         agentflow_main e eng task_list after_prompts primary_engine fallback_engines None True w =
           map_option (map_sum id (\<lambda>(code, st', w'). (code, w')))
             (main_loop e eng task_list after_prompts primary_engine fallback_engines default_state
                \<lparr>task_index = 0, phase = ''main'', after_index = 0\<rparr>
                (snd (load_state e (state_file eng) w)))"
proof -
  have l: "load_state e (state_file eng) w =
           (default_state,
            w\<lparr>files := (files w)(with_suffix (state_file eng)
                                    (''.corrupt.'' @ now_stamp e (clock w) @ ''.json'') \<mapsto> content)\<rparr>)"
    using assms(1,2) by (simp add: load_state_def Let_def)
  have c: "get_cursor default_state = \<lparr>task_index = 0, phase = ''main'', after_index = 0\<rparr>"
    by (simp add: get_cursor_def default_state_def)
  have t: "tasks default_state = Map.empty"
    by (simp add: default_state_def)
  have s: "start_cursor e eng task_list None True w =
      Inr (\<lparr>task_index = 0, phase = ''main'', after_index = 0\<rparr>, default_state,
           snd (load_state e (state_file eng) w))"
    using l c by (simp add: start_cursor_def opt_truthy_def)
  show ?thesis
    using l c t s assms(3) by (simp add: agentflow_main_def)
qed

theorem load_state_corrupt_restarts_witness:
  "load_state idle_env (state_file demo_engine) corrupt_world =
     (default_state,
      corrupt_world\<lparr>files := (files corrupt_world)
         (''/r/.agentflow/state.corrupt.20260101-000000.json'' \<mapsto> ''{\"cursor\": {\"task_in'')\<rparr>) \<and>
   get_cursor (fst (load_state idle_env (state_file demo_engine) corrupt_world))
     = \<lparr>task_index = 0, phase = ''main'', after_index = 0\<rparr>"
proof -
  have f: "files corrupt_world (state_file demo_engine) = Some ''{\"cursor\": {\"task_in''"
    by (simp add: corrupt_world_def state_file_def demo_engine_def)
  have p: "loads idle_env ''{\"cursor\": {\"task_in'' = None"
    by (simp add: idle_env_def)
  have n: "[demo_task ''T1-1''] \<noteq> []"
    by simp
  have b: "with_suffix (state_file demo_engine)
             (''.corrupt.'' @ now_stamp idle_env (clock corrupt_world) @ ''.json'')
           = ''/r/.agentflow/state.corrupt.20260101-000000.json''"
    by (simp add: with_suffix_def path_suffix_def path_name_def state_file_def demo_engine_def
        idle_env_def)
  note th = load_state_corrupt_restarts [OF f p n, of "[]" "''codex''" "[]"]
  from th have 1: "load_state idle_env (state_file demo_engine) corrupt_world =
     (default_state,
      corrupt_world\<lparr>files := (files corrupt_world)
         (''/r/.agentflow/state.corrupt.20260101-000000.json'' \<mapsto> ''{\"cursor\": {\"task_in'')\<rparr>)"
    unfolding b by (rule conjunct1)
  from th have 2: "get_cursor (fst (load_state idle_env (state_file demo_engine) corrupt_world))
     = \<lparr>task_index = 0, phase = ''main'', after_index = 0\<rparr>"
    by blast
  show ?thesis
    using 1 2 by (rule conjI)
qed

section \<open>Writing the state file\<close>

lemma states_of_write_text:
  "set (states_of_op (WriteText p content) fs) = (\<lambda>k. fs(p \<mapsto> take k content)) ` {0 .. length content}"
  by (simp add: states_of_op_def atLeastLessThanSuc_atLeastAtMost del: upt_Suc)

lemma last_states_of_write_text:
  "last (states_of_op (WriteText p content) fs) = fs(p \<mapsto> content)"
  by (simp add: states_of_op_def last_map del: upt_Suc)

text \<open>
  C3, as the code has it. agentflow's \<^verbatim>\<open>save_state\<close> writes the document to the temporary file
  and renames it over the state file: in every state of the disk during the save the
  state file holds what it held before or the whole new document, and it holds the new
  document at the end (which is what \<open>save_state\<close> leaves). The runner's
  \<^verbatim>\<open>write_json\<close> writes the state file in place: during the write the file holds each
  prefix of the new text in turn.
\<close>

theorem save_state_atomic:
  assumes "with_suffix path ''.tmp'' \<noteq> path"
  shows "list_all (\<lambda>fs'. fs' path = fs path \<or> fs' path = Some content)
           (states_of_ops (save_state_ops path content) fs) \<and>
         last (states_of_ops (save_state_ops path content) fs) path = Some content \<and>
         files (save_state e path st w)
           = last (states_of_ops (save_state_ops path (dumps e st)) (files w)) \<and>
         states_of_ops (write_json_ops path content) fs
           = map (\<lambda>k. fs(path \<mapsto> take k (content @ [CHR 0x0A]))) [0 ..< Suc (Suc (length content))]"
proof -
  let ?tmp = "with_suffix path ''.tmp''"
  have w: "\<And>c f. list_all (\<lambda>fs'. fs' path = f path) (states_of_op (WriteText ?tmp c) f)"
    using assms by (auto simp: list_all_iff states_of_write_text)
  have r: "\<And>c f. states_of_op (Replace ?tmp path) (f(?tmp \<mapsto> c)) = [((f(?tmp \<mapsto> c))(?tmp := None))(path \<mapsto> c)]"
    by (simp add: states_of_op_def)
  have ops: "\<And>c f. states_of_ops (save_state_ops path c) f
      = states_of_op (WriteText ?tmp c) f @ [((f(?tmp \<mapsto> c))(?tmp := None))(path \<mapsto> c)]"
    by (simp add: save_state_ops_def last_states_of_write_text r)
  have 1: "list_all (\<lambda>fs'. fs' path = fs path \<or> fs' path = Some content)
           (states_of_ops (save_state_ops path content) fs)"
    using w [of fs content] by (auto simp: ops list_all_iff)
  have 2: "\<And>c f. last (states_of_ops (save_state_ops path c) f) = ((f(?tmp \<mapsto> c))(?tmp := None))(path \<mapsto> c)"
    by (simp add: ops)
  have 3: "files (save_state e path st w)
           = last (states_of_ops (save_state_ops path (dumps e st)) (files w))"
    by (simp add: 2 save_state_def Let_def)
  have 4: "states_of_ops (write_json_ops path content) fs
           = map (\<lambda>k. fs(path \<mapsto> take k (content @ [CHR 0x0A]))) [0 ..< Suc (Suc (length content))]"
    by (simp add: write_json_ops_def states_of_op_def del: upt_Suc)
  show ?thesis
    using 1 2 3 4 by simp
qed

theorem save_state_atomic_witness:
  "with_suffix ''/r/.agentflow/state.json'' ''.tmp'' \<noteq> ''/r/.agentflow/state.json'' \<and>
   list_all (\<lambda>fs'. fs' ''/r/.agentflow/state.json'' = Some ''{\"cursor\": 0}''
                  \<or> fs' ''/r/.agentflow/state.json'' = Some ''{\"cursor\": 1}'')
     (states_of_ops (save_state_ops ''/r/.agentflow/state.json'' ''{\"cursor\": 1}'')
        [''/r/.agentflow/state.json'' \<mapsto> ''{\"cursor\": 0}'']) \<and>
   last (states_of_ops (save_state_ops ''/r/.agentflow/state.json'' ''{\"cursor\": 1}'')
        [''/r/.agentflow/state.json'' \<mapsto> ''{\"cursor\": 0}'']) ''/r/.agentflow/state.json''
     = Some ''{\"cursor\": 1}''"
proof -
  have t: "with_suffix ''/r/.agentflow/state.json'' ''.tmp'' \<noteq> ''/r/.agentflow/state.json''"
    by (simp add: with_suffix_def path_suffix_def path_name_def)
  from save_state_atomic [OF t, of "[''/r/.agentflow/state.json'' \<mapsto> ''{\"cursor\": 0}'']"
      "''{\"cursor\": 1}''"] t
  show ?thesis by simp
qed

text \<open>
  C3 as stated fails for the runner: while \<^verbatim>\<open>write_json\<close> writes the state file, the
  file holds the first three characters of the new document at one moment, which is
  neither the old document nor the new one.
\<close>

theorem write_json_partial_counterexample:
  "(states_of_ops (write_json_ops ''/r/.t2/state.json'' ''{\"completed_task_ids\": [\"T2-1\"]}'')
      [''/r/.t2/state.json'' \<mapsto> ''{\"completed_task_ids\": []}'' @ [CHR 0x0A]]) ! 3
     = [''/r/.t2/state.json'' \<mapsto> ''{\"c''] \<and>
   \<not> list_all (\<lambda>fs'. fs' ''/r/.t2/state.json'' = Some (''{\"completed_task_ids\": []}'' @ [CHR 0x0A])
                  \<or> fs' ''/r/.t2/state.json''
                      = Some (''{\"completed_task_ids\": [\"T2-1\"]}'' @ [CHR 0x0A]))
     (states_of_ops (write_json_ops ''/r/.t2/state.json'' ''{\"completed_task_ids\": [\"T2-1\"]}'')
        [''/r/.t2/state.json'' \<mapsto> ''{\"completed_task_ids\": []}'' @ [CHR 0x0A]])"
proof -
  let ?p = "''/r/.t2/state.json''"
  let ?new = "''{\"completed_task_ids\": [\"T2-1\"]}''"
  let ?fs = "[?p \<mapsto> ''{\"completed_task_ids\": []}'' @ [CHR 0x0A]]"
  let ?states = "states_of_ops (write_json_ops ?p ?new) ?fs"
  have s: "?states = map (\<lambda>k. ?fs(?p \<mapsto> take k (?new @ [CHR 0x0A]))) [0 ..< Suc (Suc (length ?new))]"
    by (simp add: write_json_ops_def states_of_op_def del: upt_Suc)
  have n: "?states ! 3 = [?p \<mapsto> ''{\"c'']"
    unfolding s by (subst nth_map) (simp_all del: upt_Suc add: nth_upt)
  have m: "?states ! 3 \<in> set ?states"
    unfolding s by (rule nth_mem) simp
  have "\<not> list_all (\<lambda>fs'. fs' ?p = Some (''{\"completed_task_ids\": []}'' @ [CHR 0x0A])
                  \<or> fs' ?p = Some (?new @ [CHR 0x0A])) ?states"
  proof
    assume "list_all (\<lambda>fs'. fs' ?p = Some (''{\"completed_task_ids\": []}'' @ [CHR 0x0A])
                  \<or> fs' ?p = Some (?new @ [CHR 0x0A])) ?states"
    with m have "(?states ! 3) ?p = Some (''{\"completed_task_ids\": []}'' @ [CHR 0x0A])
                  \<or> (?states ! 3) ?p = Some (?new @ [CHR 0x0A])"
      unfolding list_all_iff by blast
    then show False
      unfolding n by simp
  qed
  with n show ?thesis by blast
qed

section \<open>A zero exit code with a reported error\<close>

lemma mem_dropWhile: "x \<in> set xs \<Longrightarrow> \<not> P x \<Longrightarrow> x \<in> set (dropWhile P xs)"
  by (induction xs) auto

lemma py_strip_nonempty: "c \<in> set s \<Longrightarrow> \<not> is_space c \<Longrightarrow> py_strip s \<noteq> []"
proof -
  assume c: "c \<in> set s" and n: "\<not> is_space c"
  then have "c \<in> set (dropWhile is_space s)"
    by (rule mem_dropWhile)
  then have "c \<in> set (rev (dropWhile is_space s))"
    by simp
  then have "c \<in> set (dropWhile is_space (rev (dropWhile is_space s)))"
    using n by (rule mem_dropWhile)
  then have "0 < length (dropWhile is_space (rev (dropWhile is_space s)))"
    by (rule length_pos_if_in_set)
  then have "dropWhile is_space (rev (dropWhile is_space s)) \<noteq> []"
    by simp
  then show ?thesis
    by (simp add: py_strip_def)
qed

lemma colon_not_space: "\<not> is_space CHR '':''"
  by (simp add: is_space_def)

text \<open>agentflow, \<^verbatim>\<open>Engine.run_claude\<close>: a parsed payload with \<^verbatim>\<open>is_error\<close> true or
  subtype \<^verbatim>\<open>error\<close> gives \<open>ok = False\<close>, whatever the exit code.\<close>

lemma claude_result_reported_error:
  assumes "try_parse_json_object e out = Some (JObj kvs)"
    and "dict_get kvs ''is_error'' = JBool True \<or> dict_get kvs ''subtype'' = JStr ''error''"
  shows "\<not> ok (claude_result e lpath rc out)"
  using assms by (auto simp: claude_result_def Let_def)

text \<open>agentflow, \<^verbatim>\<open>Engine.run_gemini\<close>: a parsed payload with a truthy \<^verbatim>\<open>error\<close> field
  gives \<open>ok = False\<close>, whatever the exit code.\<close>

lemma gemini_result_reported_error:
  assumes "try_parse_json_object e out = Some (JObj kvs)"
    and "truthy (dict_get kvs ''error'')"
  shows "\<not> ok (gemini_result e lpath rc out)"
  using assms by (simp add: gemini_result_def Let_def)

text \<open>The runner, \<^verbatim>\<open>gemini_run\<close> with the \<^verbatim>\<open>json\<close> format: a payload with a truthy
  \<^verbatim>\<open>error\<close> field always leaves an error summary.\<close>

lemma gemini_json_payload_error:
  assumes "startswith (py_strip out) ''{''" and "json_loads e out = Some (JObj kvs)"
    and "truthy (dict_get kvs ''error'')"
  shows "snd (gemini_json_payload e out) \<noteq> []"
proof (cases "payload_error_summary e (JObj kvs)")
  case (Inl err)
  then show ?thesis
    using assms by (simp add: gemini_json_payload_def)
next
  case (Inr summary)
  have ne: "summary \<noteq> []"
  proof -
    from Inr assms(3) obtain ekvs where
      "summary = py_strip (py_str e (dict_get_default ekvs ''type'' (JStr ''Error''))
                        @ '': '' @ py_str e (dict_get_default ekvs ''message'' (JStr [])))"
      by (auto simp: payload_error_summary_def split: json.splits)
    then show ?thesis
      using py_strip_nonempty [OF _ colon_not_space] by simp
  qed
  show ?thesis
  proof (cases "payload_response_text (JObj kvs)")
    case (Inl err)
    then show ?thesis
      using assms Inr by (simp add: gemini_json_payload_def)
  next
    case (Inr resp)
    then show ?thesis
      using assms \<open>payload_error_summary e (JObj kvs) = Inr summary\<close> ne
      by (simp add: gemini_json_payload_def)
  qed
qed

lemma gemini_run_json_reported_error:
  assumes "gemini_outfmt e g sessions = ''json''"
    and "proc e (clock w) (gemini_cmd e args g sessions) (Some prompt) = Some po"
    and "startswith (py_strip (concat (po_lines po))) ''{''"
    and "json_loads e (concat (po_lines po)) = Some (JObj kvs)"
    and "truthy (dict_get kvs ''error'')"
  shows "returned_code (gemini_run e args g sessions prompt w) \<noteq> None \<and>
         returned_code (gemini_run e args g sessions prompt w) \<noteq> Some 0"
proof -
  have "snd (gemini_json_payload e (concat (po_lines po))) \<noteq> []"
    using assms(3-5) by (rule gemini_json_payload_error)
  then show ?thesis
    using assms(1,2)
    by (auto simp: gemini_run_def run_def spawn_def returned_code_def Let_def split: prod.splits)
qed

text \<open>
  C6 fails in the runner's claude backend. \<^verbatim>\<open>AgentRunner.claude_run\<close> reads the payload
  for the session id and the result text only: with exit code 0 and a payload whose
  \<^verbatim>\<open>is_error\<close> is true and whose subtype is \<^verbatim>\<open>error\<close>, the result it returns has
  return code 0, which \<^verbatim>\<open>main\<close> takes as success. On the same output agentflow's
  \<^verbatim>\<open>Engine.run_claude\<close> returns \<open>ok = False\<close>.
\<close>

theorem claude_run_ignores_reported_error:
  "returned_code (claude_run claude_error_env [''-p'', ''--output-format'', ''json''] []
      no_sessions ''implement T1-1'' (world0 False False)) = Some 0 \<and>
   exit_code (fst (run_claude claude_error_env demo_engine ''implement T1-1'' None
      ''/r/.agentflow/tasks/T1-1/run.log'' (world0 False False))) = 0 \<and>
   ok (fst (run_claude claude_error_env demo_engine ''implement T1-1'' None
      ''/r/.agentflow/tasks/T1-1/run.log'' (world0 False False))) = False"
proof -
  have 1: "returned_code (claude_run claude_error_env [''-p'', ''--output-format'', ''json''] []
      no_sessions ''implement T1-1'' (world0 False False)) = Some 0"
    by (simp add: claude_run_def run_def spawn_def returned_code_def claude_error_env_def
        idle_env_def no_sessions_def opt_truthy_def Let_def)
  have c: "capture_lines [] [claude_error_payload] = [claude_error_payload]"
    by (simp add: MAX_CAPTURE_CHARS_def claude_error_payload_def)
  have r: "run_process claude_error_env (world0 False False) c i
      = ((0, claude_error_payload), snd (run_process claude_error_env (world0 False False) c i))" for c i
    by (simp add: run_process_def spawn_def claude_error_env_def idle_env_def c del: capture_lines.simps)
  have rc: "fst (run_claude claude_error_env demo_engine ''implement T1-1'' None
      ''/r/.agentflow/tasks/T1-1/run.log'' (world0 False False))
      = claude_result claude_error_env ''/r/.agentflow/tasks/T1-1/run.log'' 0 claude_error_payload"
    by (subst run_claude_def, subst r) (simp add: claude_error_env_def idle_env_def)
  have sp: "py_strip claude_error_payload = claude_error_payload"
    by (simp add: py_strip_def is_space_def claude_error_payload_def)
  have sb: "scan_back claude_error_env claude_error_payload (length claude_error_payload)
      = Some (JObj [(''type'', JStr ''result''), (''subtype'', JStr ''error''), (''is_error'', JBool True),
               (''result'', JStr ''Credit balance is too low''), (''session_id'', JStr ''c-1'')])"
    by (simp add: claude_error_payload_def claude_error_env_def idle_env_def)
  have p: "try_parse_json_object claude_error_env claude_error_payload
      = Some (JObj [(''type'', JStr ''result''), (''subtype'', JStr ''error''), (''is_error'', JBool True),
               (''result'', JStr ''Credit balance is too low''), (''session_id'', JStr ''c-1'')])"
    unfolding try_parse_json_object_def sp Let_def sb
    by (simp add: claude_error_payload_def)
  have e: "exit_code (claude_result claude_error_env ''/r/.agentflow/tasks/T1-1/run.log'' 0
      claude_error_payload) = 0"
    by (simp add: claude_result_def p Let_def)
  have 2: "\<not> ok (claude_result claude_error_env ''/r/.agentflow/tasks/T1-1/run.log'' 0
      claude_error_payload)"
    by (rule claude_result_reported_error [OF p]) (simp add: dict_get_def)
  show ?thesis
    using 1 e 2 by (simp add: rc)
qed

section \<open>The verify step\<close>

lemma clock_sleep: "clock (sleep e w) = Suc (clock w)"
  by (simp add: sleep_def)

lemma run_bash:
  assumes "bash_found e"
  shows "\<exists>po w'. proc e (clock w) [''bash'', ''-lc'', c] None = Some po \<and>
           run e w [''bash'', ''-lc'', c] None =
             Inr (\<lparr>cmd = [''bash'', ''-lc'', c], returncode = po_rc po,
                   rr_stdout = concat (po_lines po), rr_stderr = po_err po\<rparr>, w') \<and>
           clock w' = Suc (clock w) \<and> spawned w' = spawned w @ [[''bash'', ''-lc'', c]]"
proof -
  from assms obtain po where "proc e (clock w) [''bash'', ''-lc'', c] None = Some po"
    by (auto simp: bash_found_def)
  then show ?thesis
    by (simp add: run_def spawn_def clock_sleep sleep_def)
qed

lemma run_verify_keys_collects:
  assumes "bash_found e"
  shows "\<exists>w'. run_verify_keys e commands keys failures w =
           Inr (failures @ concat (map (check_failure e (clock w))
                                    (enumerate 0 (checks_to_run commands keys))), w') \<and>
           spawned w' = spawned w @ map (\<lambda>c. [''bash'', ''-lc'', c]) (checks_to_run commands keys) \<and>
           clock w' = clock w + length (checks_to_run commands keys)"
proof (induction keys arbitrary: failures w)
  case Nil
  then show ?case by (simp add: checks_to_run_def)
next
  case (Cons key keys)
  show ?case
  proof (cases "verify_command commands key = []")
    case True
    then have "checks_to_run commands (key # keys) = checks_to_run commands keys"
      by (simp add: checks_to_run_def)
    with True Cons.IH [of failures w] show ?thesis
      by simp
  next
    case False
    let ?c = "verify_command commands key"
    have ctr: "checks_to_run commands (key # keys) = ?c # checks_to_run commands keys"
      using False by (simp add: checks_to_run_def)
    from run_bash [OF assms, of w ?c] obtain po w1 where
      p: "proc e (clock w) [''bash'', ''-lc'', ?c] None = Some po"
      and r: "run e w [''bash'', ''-lc'', ?c] None =
             Inr (\<lparr>cmd = [''bash'', ''-lc'', ?c], returncode = po_rc po,
                   rr_stdout = concat (po_lines po), rr_stderr = po_err po\<rparr>, w1)"
      and c1: "clock w1 = Suc (clock w)"
      and s1: "spawned w1 = spawned w @ [[''bash'', ''-lc'', ?c]]"
      by blast
    let ?f1 = "failures @ check_failure e (clock w) (0, ?c)"
    from Cons.IH [of ?f1 w1] obtain w' where
      ih: "run_verify_keys e commands keys ?f1 w1 =
           Inr (?f1 @ concat (map (check_failure e (clock w1))
                                  (enumerate 0 (checks_to_run commands keys))), w')"
      and s': "spawned w' = spawned w1 @ map (\<lambda>c. [''bash'', ''-lc'', c]) (checks_to_run commands keys)"
      and c': "clock w' = clock w1 + length (checks_to_run commands keys)"
      by blast
    have cf: "check_failure e (clock w) (apfst Suc x) = check_failure e (Suc (clock w)) x" for x
      by (cases x) (simp add: check_failure_def split: option.splits)
    have shift: "map (check_failure e (clock w1)) (enumerate 0 cs)
        = map (check_failure e (clock w)) (enumerate (Suc 0) cs)" for cs
      by (simp add: enumerate_Suc_eq c1 cf)
    have step: "run_verify_keys e commands (key # keys) failures w
        = run_verify_keys e commands keys ?f1 w1"
      using False r p by (simp add: check_failure_def Let_def)
    have res: "run_verify_keys e commands (key # keys) failures w =
           Inr (failures @ concat (map (check_failure e (clock w))
                                    (enumerate 0 (checks_to_run commands (key # keys)))), w')"
      unfolding step ih by (simp add: ctr shift)
    have sp: "spawned w' = spawned w @ map (\<lambda>c. [''bash'', ''-lc'', c]) (checks_to_run commands (key # keys))"
      using s' s1 by (simp add: ctr)
    have cl: "clock w' = clock w + length (checks_to_run commands (key # keys))"
      using c' c1 by (simp add: ctr)
    show ?thesis
      using res sp cl by blast
  qed
qed

text \<open>
  C7, as the code has it. When \<^verbatim>\<open>bash\<close> can be spawned, \<^verbatim>\<open>run_verify\<close> returns; the processes it
  spawns are, in this order, the non-empty stripped commands configured under
  \<^verbatim>\<open>format\<close>, \<^verbatim>\<open>lint\<close> and \<^verbatim>\<open>test\<close>, each run whatever the earlier ones returned; and
  the failures it returns are, in the same order, the pairs of command and stripped
  combined output of those that exit non-zero. Entries of the configuration under any
  other name play no part.
\<close>

theorem run_verify_collects_all:
  assumes "bash_found e"
  shows "\<exists>w'. run_verify e commands w =
           Inr (concat (map (check_failure e (clock w))
                          (enumerate 0 (checks_to_run commands [''format'', ''lint'', ''test'']))), w') \<and>
           spawned w' = spawned w @ map (\<lambda>c. [''bash'', ''-lc'', c])
                                      (checks_to_run commands [''format'', ''lint'', ''test''])"
proof -
  from run_verify_keys_collects [OF assms, of commands "[''format'', ''lint'', ''test'']" "[]" w]
  show ?thesis
    unfolding run_verify_def by auto
qed

lemma bash_found_verify_env: "bash_found verify_env"
  by (simp add: bash_found_def verify_env_def idle_env_def)

lemma strip_examples:
  "py_strip ''  '' = []"
  "py_strip ''composer format'' = ''composer format''"
  "py_strip ''composer lint '' = ''composer lint''"
  "py_strip ''composer test'' = ''composer test''"
  "py_strip ''mypy .'' = ''mypy .''"
  "py_strip [] = []"
  by (simp_all add: py_strip_def is_space_def)

theorem run_verify_collects_all_witness:
  "map_sum id fst (run_verify verify_env
      [(''format'', ''composer format''), (''lint'', ''composer lint ''), (''test'', ''composer test'')]
      (world0 False False))
     = Inr [(''composer lint'', ''FAILED'' @ [CHR 0x0A, CHR 0x0A] @ ''boom''),
            (''composer test'', ''FAILED'' @ [CHR 0x0A, CHR 0x0A] @ ''boom'')] \<and>
   map_sum id (spawned \<circ> snd) (run_verify verify_env
      [(''format'', ''composer format''), (''lint'', ''composer lint ''), (''test'', ''composer test'')]
      (world0 False False))
     = Inr [[''bash'', ''-lc'', ''composer format''], [''bash'', ''-lc'', ''composer lint''],
            [''bash'', ''-lc'', ''composer test'']]"
proof -
  let ?cfg = "[(''format'', ''composer format''), (''lint'', ''composer lint ''), (''test'', ''composer test'')]"
  have c: "checks_to_run ?cfg [''format'', ''lint'', ''test'']
      = [''composer format'', ''composer lint'', ''composer test'']"
    by (simp add: checks_to_run_def verify_command_def strip_examples)
  have f: "concat (map (check_failure verify_env (clock (world0 False False)))
             (enumerate 0 [''composer format'', ''composer lint'', ''composer test'']))
      = [(''composer lint'', ''FAILED'' @ [CHR 0x0A, CHR 0x0A] @ ''boom''),
         (''composer test'', ''FAILED'' @ [CHR 0x0A, CHR 0x0A] @ ''boom'')]"
    by (simp add: check_failure_def verify_env_def idle_env_def py_strip_def is_space_def)
  from run_verify_collects_all [OF bash_found_verify_env, of ?cfg "world0 False False"]
  obtain w' where
    r: "run_verify verify_env ?cfg (world0 False False) =
           Inr (concat (map (check_failure verify_env (clock (world0 False False)))
                          (enumerate 0 (checks_to_run ?cfg [''format'', ''lint'', ''test'']))), w')"
    and s: "spawned w' = spawned (world0 False False) @ map (\<lambda>c. [''bash'', ''-lc'', c])
                                      (checks_to_run ?cfg [''format'', ''lint'', ''test''])"
    by blast
  have s0: "spawned (world0 False False) = []"
    by (simp add: world0_def)
  show ?thesis
    unfolding r c f by (simp add: s c s0)
qed

text \<open>
  C7 as stated fails: a configuration that names a fourth check, \<^verbatim>\<open>typecheck\<close>, with a
  non-empty command that would exit with code 1, and leaves the three known checks
  empty. The verify step spawns nothing and reports no failure.
\<close>

theorem run_verify_unknown_check_counterexample:
  "map_of [(''format'', []), (''lint'', []), (''test'', []), (''typecheck'', ''mypy .'')] ''typecheck''
     = Some ''mypy .'' \<and>
   map_option po_rc (proc verify_env 0 [''bash'', ''-lc'', ''mypy .''] None) = Some 1 \<and>
   run_verify verify_env
      [(''format'', []), (''lint'', []), (''test'', []), (''typecheck'', ''mypy .'')] (world0 False False)
     = Inr ([], world0 False False)"
  by (simp add: run_verify_def verify_command_def strip_examples verify_env_def idle_env_def)

section \<open>agentflow: one pass over an engine order\<close>

lemma history_record_attempt:
  "history (record_attempt e ph idx en result w1 ts) =
     history ts @ [\<lparr>sr_ts = now_stamp e (clock w1), sr_phase = ph, sr_after_index = idx,
                    sr_engine = en, sr_ok = ok result, sr_exit_code = exit_code result,
                    sr_log = log_path result\<rparr>]"
  by (simp add: record_attempt_def Let_def)

lemma last_ok_record_attempt:
  "last_ok_engine (record_attempt e ph idx en result w1 ts) = last_ok_engine ts"
  by (simp add: record_attempt_def Let_def)

lemma status_record_attempt:
  "status (record_attempt e ph idx en result w1 ts) = status ts"
  by (simp add: record_attempt_def Let_def)

lemma marks_sleep_idle: "user e = (\<lambda>t m. m) \<Longrightarrow> marks (sleep e w) = marks w"
  by (simp add: sleep_def)

lemma marks_spawn_idle: "user e = (\<lambda>t m. m) \<Longrightarrow> marks (snd (spawn e w c i)) = marks w"
  by (simp add: spawn_def sleep_def split: option.splits)

lemma marks_run_process_idle:
  "user e = (\<lambda>t m. m) \<Longrightarrow> marks (snd (run_process e w c i)) = marks w"
  using marks_spawn_idle [of e w c i]
  by (auto simp: run_process_def split: prod.splits option.splits)

lemma marks_run_codex_idle:
  "user e = (\<lambda>t m. m) \<Longrightarrow> marks (snd (run_codex e eng prompt rl lp lastp w)) = marks w"
  using marks_run_process_idle [of e w "run_codex_cmd eng rl lastp" "Some prompt"]
  by (auto simp: run_codex_def Let_def split: prod.splits)

lemma marks_run_claude_idle:
  "user e = (\<lambda>t m. m) \<Longrightarrow> marks (snd (run_claude e eng prompt rs lp w)) = marks w"
  using marks_run_process_idle [of e w "run_claude_cmd eng prompt rs" None]
  by (auto simp: run_claude_def Let_def split: prod.splits)

lemma marks_run_gemini_idle:
  "user e = (\<lambda>t m. m) \<Longrightarrow> marks (snd (run_gemini e eng prompt lp rt w)) = marks w"
  using marks_run_process_idle [of e w "run_gemini_cmd eng prompt rt" None]
  by (auto simp: run_gemini_def Let_def split: prod.splits)

lemma marks_run_with_engine_idle:
  assumes "user e = (\<lambda>t m. m)"
    and "run_with_engine e eng task loc en prompt ph step_name w = Inr (result, w1)"
  shows "marks w1 = marks w"
proof -
  consider "en = ''codex''" | "en = ''claude''" | "en = ''gemini''"
    | "en \<noteq> ''codex'' \<and> en \<noteq> ''claude'' \<and> en \<noteq> ''gemini''"
    by blast
  then show ?thesis
  proof cases
    case 1
    with assms(2) obtain rl lp lastp where "run_codex e eng prompt rl lp lastp w = (result, w1)"
      by (auto simp: run_with_engine_def Let_def)
    with marks_run_codex_idle [OF assms(1), of eng prompt rl lp lastp w] show ?thesis
      by simp
  next
    case 2
    with assms(2) obtain rs lp where "run_claude e eng prompt rs lp w = (result, w1)"
      by (auto simp: run_with_engine_def Let_def)
    with marks_run_claude_idle [OF assms(1), of eng prompt rs lp w] show ?thesis
      by simp
  next
    case 3
    with assms(2) obtain lp rt where "run_gemini e eng prompt lp rt w = (result, w1)"
      by (auto simp: run_with_engine_def Let_def)
    with marks_run_gemini_idle [OF assms(1), of eng prompt lp rt w] show ?thesis
      by simp
  next
    case 4
    with assms(2) show ?thesis
      by (simp add: run_with_engine_def Let_def)
  qed
qed

lemma run_with_engine_known:
  assumes "known_engine en"
  shows "\<exists>result w1. run_with_engine e eng task loc en prompt ph step_name w = Inr (result, w1)"
  using assms by (auto simp: known_engine_def run_with_engine_def Let_def intro: prod.exhaust)

lemma marks_save_state: "marks (save_state e path st w) = marks w"
  by (simp add: save_state_def Let_def)

text \<open>What a pass leaves in the history, whatever its outcome: one entry for each engine
  tried, in the order of the list, all carrying the phase and the follow-up index of
  the pass; at least one when the list is not empty.\<close>

lemma try_engines_history:
  assumes "try_engines e eng task prompt ph step_name idx order res ts loc w = Inr (res', ts', loc', w')"
  shows "\<exists>recs. history ts' = history ts @ recs \<and>
           list_all (\<lambda>r. sr_phase r = ph \<and> sr_after_index r = idx) recs \<and>
           list_all (\<lambda>r. \<not> sr_ok r) (butlast recs) \<and>
           map sr_engine recs = take (length recs) order \<and>
           (order \<noteq> [] \<longrightarrow> recs \<noteq> []) \<and>
           (last_ok_engine ts' = last_ok_engine ts \<or> (\<exists>en \<in> set order. last_ok_engine ts' = Some en))"
  using assms
proof (induction order arbitrary: res ts loc w)
  case Nil
  then show ?case by simp
next
  case (Cons en ens)
  from Cons.prems obtain result w1 where
    r: "run_with_engine e eng task loc en prompt ph step_name w = Inr (result, w1)"
    by (auto split: sum.splits)
  let ?ts1 = "record_attempt e ph idx en result w1 ts"
  let ?rec = "\<lparr>sr_ts = now_stamp e (clock w1), sr_phase = ph, sr_after_index = idx,
                    sr_engine = en, sr_ok = ok result, sr_exit_code = exit_code result,
                    sr_log = log_path result\<rparr>"
  show ?case
  proof (cases "ok result")
    case True
    with Cons.prems r have "ts' = ?ts1\<lparr>last_ok_engine := Some en\<rparr>"
      by auto
    then have "history ts' = history ts @ [?rec]" and "last_ok_engine ts' = Some en"
      by (simp_all add: history_record_attempt)
    then show ?thesis
      by (intro exI [of _ "[?rec]"]) simp
  next
    case False
    with Cons.prems r have
      "try_engines e eng task prompt ph step_name idx ens (Some result) ?ts1
         (note_attempt en result loc) w1 = Inr (res', ts', loc', w')"
      by simp
    from Cons.IH [OF this] obtain recs where
      h: "history ts' = history ?ts1 @ recs"
      and a: "list_all (\<lambda>r. sr_phase r = ph \<and> sr_after_index r = idx) recs"
      and b: "list_all (\<lambda>r. \<not> sr_ok r) (butlast recs)"
      and m: "map sr_engine recs = take (length recs) ens"
      and l: "last_ok_engine ts' = last_ok_engine ?ts1 \<or> (\<exists>en \<in> set ens. last_ok_engine ts' = Some en)"
      by blast
    have "history ts' = history ts @ (?rec # recs)"
      using h by (simp add: history_record_attempt)
    moreover have "list_all (\<lambda>r. sr_phase r = ph \<and> sr_after_index r = idx) (?rec # recs)"
      using a by simp
    moreover have "list_all (\<lambda>r. \<not> sr_ok r) (butlast (?rec # recs))"
      using b False by simp
    moreover have "map sr_engine (?rec # recs) = take (length (?rec # recs)) (en # ens)"
      using m by simp
    moreover have "last_ok_engine ts' = last_ok_engine ts
        \<or> (\<exists>x \<in> set (en # ens). last_ok_engine ts' = Some x)"
      using l by (auto simp: last_ok_record_attempt)
    ultimately show ?thesis
      by (intro exI [of _ "?rec # recs"]) simp
  qed
qed


lemma try_engines_status:
  assumes "try_engines e eng task prompt ph step_name idx order res ts loc w = Inr (res', ts', loc', w')"
  shows "status ts' = status ts"
  using assms
proof (induction order arbitrary: res ts loc w)
  case Nil
  then show ?case by simp
next
  case (Cons en ens)
  from Cons.prems obtain result w1 where
    r: "run_with_engine e eng task loc en prompt ph step_name w = Inr (result, w1)"
    by (auto split: sum.splits)
  show ?case
  proof (cases "ok result")
    case True
    with Cons.prems r show ?thesis
      by (auto simp: status_record_attempt)
  next
    case False
    with Cons.prems r have
      "try_engines e eng task prompt ph step_name idx ens (Some result)
         (record_attempt e ph idx en result w1 ts) (note_attempt en result loc) w1
       = Inr (res', ts', loc', w')"
      by simp
    from Cons.IH [OF this] show ?thesis
      by (simp add: status_record_attempt)
  qed
qed

lemma try_engines_marks_idle:
  assumes "user e = (\<lambda>t m. m)"
    and "try_engines e eng task prompt ph step_name idx order res ts loc w = Inr (res', ts', loc', w')"
  shows "marks w' = marks w"
  using assms(2)
proof (induction order arbitrary: res ts loc w)
  case Nil
  then show ?case by simp
next
  case (Cons en ens)
  from Cons.prems obtain result w1 where
    r: "run_with_engine e eng task loc en prompt ph step_name w = Inr (result, w1)"
    by (auto split: sum.splits)
  have m1: "marks w1 = marks w"
    using assms(1) r by (rule marks_run_with_engine_idle)
  show ?case
  proof (cases "ok result")
    case True
    with Cons.prems r m1 show ?thesis by simp
  next
    case False
    with Cons.prems r have
      "try_engines e eng task prompt ph step_name idx ens (Some result)
         (record_attempt e ph idx en result w1 ts) (note_attempt en result loc) w1
       = Inr (res', ts', loc', w')"
      by simp
    from Cons.IH [OF this] m1 show ?thesis by simp
  qed
qed

lemma try_engines_known:
  assumes "list_all known_engine order"
  shows "\<exists>res' ts' loc' w'.
           try_engines e eng task prompt ph step_name idx order res ts loc w = Inr (res', ts', loc', w')"
  using assms
proof (induction order arbitrary: res ts loc w)
  case Nil
  then show ?case by simp
next
  case (Cons en ens)
  then have k: "known_engine en" and ks: "list_all known_engine ens"
    by simp_all
  from run_with_engine_known [OF k, of e eng task loc prompt ph step_name w] obtain result w1 where
    r: "run_with_engine e eng task loc en prompt ph step_name w = Inr (result, w1)"
    by blast
  show ?case
  proof (cases "ok result")
    case True
    with r show ?thesis by simp
  next
    case False
    with r Cons.IH [OF ks, of "Some result" "record_attempt e ph idx en result w1 ts"
        "note_attempt en result loc" w1]
    show ?thesis by simp
  qed
qed

section \<open>agentflow: the follow-up prompts\<close>

lemma after_engine_order_known:
  assumes "known_engine primary" and "list_all known_engine fallbacks" and "last_ok_known ts"
  shows "list_all known_engine (after_engine_order ts primary fallbacks)"
  using assms
  by (auto simp: after_engine_order_def last_ok_known_def opt_truthy_def Let_def list_all_iff
      split: option.splits)

lemma after_engine_order_nonempty: "after_engine_order ts primary fallbacks \<noteq> []"
  by (simp add: after_engine_order_def Let_def)

text \<open>After a pass that tried at least one engine, the last entry of the history tells
  whether the pass succeeded.\<close>

lemma try_engines_last_ok:
  assumes "try_engines e eng task prompt ph step_name idx order None ts loc w = Inr (res', ts', loc', w')"
    and "order \<noteq> []"
  shows "sr_ok (last (history ts')) \<longleftrightarrow> \<not> (case res' of None \<Rightarrow> True | Some r \<Rightarrow> \<not> ok r)"
proof -
  have "try_engines e eng task prompt ph step_name idx order res ts loc w = Inr (res', ts', loc', w')
      \<Longrightarrow> (order = [] \<longrightarrow> res \<noteq> None \<and> history ts \<noteq> [] \<and> (sr_ok (last (history ts)) \<longleftrightarrow> ok (the res)))
      \<Longrightarrow> res' \<noteq> None \<and> history ts' \<noteq> [] \<and> (sr_ok (last (history ts')) \<longleftrightarrow> ok (the res'))"
    for res
  proof (induction order arbitrary: res ts loc w)
    case Nil
    then show ?case by simp
  next
    case (Cons en ens)
    from Cons.prems(1) obtain result w1 where
      r: "run_with_engine e eng task loc en prompt ph step_name w = Inr (result, w1)"
      by (auto split: sum.splits)
    show ?case
    proof (cases "ok result")
      case True
      with Cons.prems(1) r show ?thesis
        by (auto simp: history_record_attempt)
    next
      case False
      with Cons.prems(1) r have
        "try_engines e eng task prompt ph step_name idx ens (Some result)
           (record_attempt e ph idx en result w1 ts) (note_attempt en result loc) w1
         = Inr (res', ts', loc', w')"
        by simp
      from Cons.IH [OF this] show ?thesis
        by (simp add: history_record_attempt)
    qed
  qed
  from this [OF assms(1)] assms(2) show ?thesis
    by (cases res') auto
qed

text \<open>One follow-up prompt, whatever its outcome: the cursor moves to the next prompt, and
  the history gains the entries of this prompt, at least one.\<close>

lemma after_step_advances:
  assumes "known_engine primary" and "list_all known_engine fallbacks" and "last_ok_known ts"
  shows "\<exists>st' ts' loc' w' recs.
           after_step e eng task prompts primary fallbacks c st ts loc w =
             Inr (c\<lparr>after_index := after_index c + 1\<rparr>, st', ts', loc', w') \<and>
           history ts' = history ts @ recs \<and> recs \<noteq> [] \<and>
           list_all (\<lambda>r. sr_phase r = ''after'' \<and> sr_after_index r = Some (after_index c)) recs \<and>
           list_all (\<lambda>r. \<not> sr_ok r) (butlast recs) \<and>
           status ts' = Some (if sr_ok (last recs) then ''after_ok_'' @ show_nat (after_index c + 1)
                              else ''after_failed'') \<and>
           last_ok_known ts' \<and> tasks st' (task_id task) = Some ts' \<and>
           (user e = (\<lambda>t m. m) \<longrightarrow> marks w' = marks w)"
proof -
  let ?order = "after_engine_order ts primary fallbacks"
  let ?prompt = "build_after_prompt e (prompts ! after_index c) (task_id task) (handoff_path eng task)"
  let ?step = "''after'' @ show_nat (after_index c + 1)"
  have k: "list_all known_engine ?order"
    using assms by (rule after_engine_order_known)
  from try_engines_known [OF k, of e eng task ?prompt "''after''" ?step "Some (after_index c)" None ts loc w]
  obtain res ts1 loc1 w1 where
    t: "try_engines e eng task ?prompt ''after'' ?step (Some (after_index c)) ?order None ts loc w
          = Inr (res, ts1, loc1, w1)"
    by blast
  from try_engines_history [OF t] obtain recs where
    h: "history ts1 = history ts @ recs"
    and a: "list_all (\<lambda>r. sr_phase r = ''after'' \<and> sr_after_index r = Some (after_index c)) recs"
    and bl: "list_all (\<lambda>r. \<not> sr_ok r) (butlast recs)"
    and n: "recs \<noteq> []"
    and l: "last_ok_engine ts1 = last_ok_engine ts \<or> (\<exists>en \<in> set ?order. last_ok_engine ts1 = Some en)"
    using after_engine_order_nonempty by blast
  have lk: "last_ok_known ts1"
    using l assms(3) k by (auto simp: last_ok_known_def list_all_iff)
  let ?failed = "case res of None \<Rightarrow> True | Some r \<Rightarrow> \<not> ok r"
  let ?ts2 = "ts1\<lparr>status := Some (if ?failed then ''after_failed''
                                    else ''after_ok_'' @ show_nat (after_index c + 1))\<rparr>"
  let ?c' = "c\<lparr>after_index := after_index c + 1\<rparr>"
  let ?st' = "put_tstate (set_cursor st ?c') (task_id task) ?ts2"
  have s: "after_step e eng task prompts primary fallbacks c st ts loc w =
             Inr (?c', ?st', ?ts2, loc1, save_state e (state_file eng) ?st' w1)"
    using t by (simp add: after_step_def Let_def)
  have m: "user e = (\<lambda>t m. m) \<longrightarrow> marks (save_state e (state_file eng) ?st' w1) = marks w"
    using try_engines_marks_idle [OF _ t] by (simp add: marks_save_state)
  have lastok: "sr_ok (last recs) \<longleftrightarrow> \<not> ?failed"
    using try_engines_last_ok [OF t after_engine_order_nonempty] h n by simp
  have "history ?ts2 = history ts @ recs" "last_ok_known ?ts2" "tasks ?st' (task_id task) = Some ?ts2"
    "status ?ts2 = Some (if sr_ok (last recs) then ''after_ok_'' @ show_nat (after_index c + 1)
                              else ''after_failed'')"
    using h lk lastok by (simp_all add: last_ok_known_def put_tstate_def)
  with s n a bl m show ?thesis
    by blast
qed

lemma wait_not_paused: "\<not> should_pause w \<Longrightarrow> ControlFiles_wait_if_paused e w = Some w"
  by (subst ControlFiles_wait_if_paused.simps) simp

lemma after_phase_runs_all:
  assumes "user e = (\<lambda>t m. m)" and "known_engine primary" and "list_all known_engine fallbacks"
  shows "phase c = ''after'' \<Longrightarrow> \<not> should_pause w \<Longrightarrow> \<not> should_stop w \<Longrightarrow> last_ok_known ts \<Longrightarrow>
         length prompts - after_index c = k \<Longrightarrow>
         \<exists>st' w' tsf groups.
           after_phase e eng task prompts primary fallbacks c st ts loc w =
             Some (Inr (\<lparr>task_index = task_index c + 1, phase = ''main'', after_index = 0\<rparr>, st', w')) \<and>
           tasks st' (task_id task) = Some tsf \<and> status tsf = Some ''done'' \<and>
           history tsf = history ts @ concat groups \<and>
           followup_groups groups [after_index c ..< length prompts]"
proof (induction k arbitrary: c st ts loc w)
  case 0
  then have "\<not> after_index c < length prompts"
    by simp
  then show ?case
    by (subst after_phase.simps)
       (auto simp: Let_def put_tstate_def followup_groups_def intro!: exI [of _ "[]"])
next
  case (Suc k)
  then have lt: "after_index c < length prompts"
    by simp
  from after_step_advances [OF assms(2,3) Suc.prems(4), of e eng task prompts c st loc w]
  obtain st1 ts1 loc1 w1 recs where
    s: "after_step e eng task prompts primary fallbacks c st ts loc w =
             Inr (c\<lparr>after_index := after_index c + 1\<rparr>, st1, ts1, loc1, w1)"
    and h: "history ts1 = history ts @ recs"
    and n: "recs \<noteq> []"
    and a: "list_all (\<lambda>r. sr_phase r = ''after'' \<and> sr_after_index r = Some (after_index c)) recs"
    and bl: "list_all (\<lambda>r. \<not> sr_ok r) (butlast recs)"
    and lk: "last_ok_known ts1"
    and m: "marks w1 = marks w"
    using assms(1) by blast
  let ?c' = "c\<lparr>after_index := after_index c + 1\<rparr>"
  have p: "\<not> should_pause w1" "\<not> should_stop w1"
    using m Suc.prems(2,3) by (simp_all add: should_pause_def should_stop_def)
  have k: "length prompts - after_index ?c' = k"
    using Suc.prems(5) by simp
  have ph: "phase ?c' = ''after''"
    using Suc.prems(1) by simp
  from Suc.IH [OF ph p lk k, of st1 loc1] obtain st' w' tsf groups where
    r: "after_phase e eng task prompts primary fallbacks ?c' st1 ts1 loc1 w1 =
          Some (Inr (\<lparr>task_index = task_index ?c' + 1, phase = ''main'', after_index = 0\<rparr>, st', w'))"
    and t: "tasks st' (task_id task) = Some tsf"
    and d: "status tsf = Some ''done''"
    and hh: "history tsf = history ts1 @ concat groups"
    and g: "followup_groups groups [after_index ?c' ..< length prompts]"
    by blast
  have unfold: "after_phase e eng task prompts primary fallbacks c st ts loc w =
      after_phase e eng task prompts primary fallbacks ?c' st1 ts1 loc1 w1"
    using lt Suc.prems(1,2,3) s
    by (subst after_phase.simps) (simp add: wait_not_paused)
  have "history tsf = history ts @ concat (recs # groups)"
    using hh h by simp
  moreover have "followup_groups (recs # groups) [after_index c ..< length prompts]"
    using g n a bl lt by (simp add: followup_groups_def upt_conv_Cons)
  ultimately show ?case
    using unfold r t d by (intro exI [of _ st'] exI [of _ w'] exI [of _ tsf] exI [of _ "recs # groups"]) simp
qed

text \<open>
  C5. In a run that nobody pauses or stops, with engine names \<^verbatim>\<open>run_with_engine\<close>
  knows, the AFTER loop of \<^verbatim>\<open>run_task\<close> started at any follow-up index returns with the
  cursor on the next task, whatever the engines answer: the history gains, for every
  follow-up index from the cursor to the last, in order, a non-empty group of entries of
  that index, whose entries but the last are failures and whose last entry is the
  outcome of the prompt. So a follow-up all of whose attempts fail is recorded as
  failed, and the follow-ups after it still run and get their own entries.
\<close>

theorem followups_survive_failure:
  assumes "undisturbed e w" and "known_engine primary" and "list_all known_engine fallbacks"
    and "last_ok_known ts" and "phase c = ''after''"
  shows "\<exists>st' w' tsf groups.
           after_phase e eng task prompts primary fallbacks c st ts loc w =
             Some (Inr (\<lparr>task_index = task_index c + 1, phase = ''main'', after_index = 0\<rparr>, st', w')) \<and>
           tasks st' (task_id task) = Some tsf \<and>
           history tsf = history ts @ concat groups \<and>
           followup_groups groups [after_index c ..< length prompts]"
proof -
  from assms(1) have u: "user e = (\<lambda>t m. m)" and p: "\<not> should_pause w" and s: "\<not> should_stop w"
    by (simp_all add: undisturbed_def)
  from after_phase_runs_all [OF u assms(2,3,5) p s assms(4) refl, of eng task prompts st loc]
  show ?thesis by blast
qed

lemma followup_env_simps:
  "which followup_env b = True"
  "user followup_env = (\<lambda>t m. m)"
  "build_after_prompt followup_env a t h = a"
  "json_loads followup_env x = None"
  "proc followup_env n c i = Some \<lparr>po_rc = (if i = Some ''second'' \<or> last c = ''second'' then 1 else 0),
                              po_lines = [], po_err = [], po_wrote = []\<rparr>"
  "now_stamp followup_env n = ''20260101-000000''"
  by (simp_all add: followup_env_def idle_env_def)

lemma run_process_followup:
  "run_process followup_env w c i =
     ((if i = Some ''second'' \<or> last c = ''second'' then 1 else 0, []),
      (sleep followup_env w)\<lparr>files := files w ++ Map.empty, spawned := spawned w @ [c]\<rparr>)"
  by (simp add: run_process_def spawn_def followup_env_simps)

lemma parse_empty: "try_parse_json_object e [] = None"
  by (simp add: try_parse_json_object_def py_strip_def)

lemma last_codex_cmd: "last (run_codex_cmd eng rl lastp) = ''-''"
  by (simp add: run_codex_cmd_def)

lemma codex_followup:
  "fst (run_codex followup_env eng prompt rl lp lastp w) =
     \<lparr>engine = ''codex'', ok = (prompt \<noteq> ''second''), exit_code = (if prompt = ''second'' then 1 else 0),
      stdout = [], assistant_text = (case files w lastp of Some t \<Rightarrow> py_strip t | None \<Rightarrow> []),
      result_session_id = None, log_path = Some lp,
      last_message_path = Some lastp, error_summary = None\<rparr>"
  by (simp add: run_codex_def run_process_followup followup_env_simps py_strip_def Let_def
      last_codex_cmd split: option.splits)

lemma last_claude_cmd: "last (run_claude_cmd eng prompt rs) = prompt"
  by (simp add: run_claude_cmd_def)

lemma claude_followup:
  "fst (run_claude followup_env eng prompt rs lp w) =
     \<lparr>engine = ''claude'', ok = (prompt \<noteq> ''second''), exit_code = (if prompt = ''second'' then 1 else 0),
      stdout = [], assistant_text = [],
      result_session_id = None, log_path = Some lp,
      last_message_path = None, error_summary = None\<rparr>"
  by (simp add: run_claude_def run_process_followup followup_env_simps claude_result_def
      parse_empty last_claude_cmd py_strip_def)

lemma snd_run_codex_followup:
  "snd (run_codex followup_env eng prompt rl lp lastp w) =
     (sleep followup_env w)\<lparr>files := files w, spawned := spawned w @ [run_codex_cmd eng rl lastp]\<rparr>"
  by (simp add: run_codex_def run_process_followup followup_env_simps Let_def)

lemma snd_run_claude_followup:
  "snd (run_claude followup_env eng prompt rs lp w) =
     (sleep followup_env w)\<lparr>files := files w, spawned := spawned w @ [run_claude_cmd eng prompt rs]\<rparr>"
  by (simp add: run_claude_def run_process_followup followup_env_simps Let_def)

lemma pair_fst_snd: "p = (fst p, snd p)"
  by simp

lemma rwe_codex:
  "run_with_engine followup_env eng task loc ''codex'' prompt ph step_name w =
     Inr (fst (run_codex followup_env eng prompt (ph = ''after'' \<and> codex_resume loc)
                (app_dir eng @ ''/tasks/'' @ task_id task @ ''/'' @ ''20260101-000000'' @ ''.'' @ ''codex''
                   @ ''.'' @ ph @ ''.'' @ step_name @ ''.log'')
                (app_dir eng @ ''/tasks/'' @ task_id task @ ''/'' @ ''20260101-000000'' @ ''.'' @ ''codex''
                   @ ''.'' @ ph @ ''.'' @ step_name @ ''.last.txt'') w),
          snd (run_codex followup_env eng prompt (ph = ''after'' \<and> codex_resume loc)
                (app_dir eng @ ''/tasks/'' @ task_id task @ ''/'' @ ''20260101-000000'' @ ''.'' @ ''codex''
                   @ ''.'' @ ph @ ''.'' @ step_name @ ''.log'')
                (app_dir eng @ ''/tasks/'' @ task_id task @ ''/'' @ ''20260101-000000'' @ ''.'' @ ''codex''
                   @ ''.'' @ ph @ ''.'' @ step_name @ ''.last.txt'') w))"
  by (simp add: run_with_engine_def followup_env_simps Let_def)

lemma rwe_claude:
  "run_with_engine followup_env eng task loc ''claude'' prompt ph step_name w =
     Inr (fst (run_claude followup_env eng prompt (if ph = ''after'' then claude_session loc else None)
                (app_dir eng @ ''/tasks/'' @ task_id task @ ''/'' @ ''20260101-000000'' @ ''.'' @ ''claude''
                   @ ''.'' @ ph @ ''.'' @ step_name @ ''.log'') w),
          snd (run_claude followup_env eng prompt (if ph = ''after'' then claude_session loc else None)
                (app_dir eng @ ''/tasks/'' @ task_id task @ ''/'' @ ''20260101-000000'' @ ''.'' @ ''claude''
                   @ ''.'' @ ph @ ''.'' @ step_name @ ''.log'') w))"
  by (simp add: run_with_engine_def followup_env_simps Let_def)

lemma followup_demo:
  "history_after (after_phase followup_env demo_engine (demo_task ''T1-1'')
      [''first'', ''second'', ''third''] ''codex'' [''claude'']
      (after_cursor 0) default_state empty_tstate (locals_of empty_tstate) (world0 False False)) ''T1-1''
   = [(Some 0, ''codex'', True),
      (Some 1, ''codex'', False), (Some 1, ''codex'', False), (Some 1, ''claude'', False),
      (Some 2, ''codex'', True)]"
  by (simp add: after_phase.simps after_step_def after_engine_order_def rwe_codex rwe_claude
      codex_followup claude_followup snd_run_codex_followup snd_run_claude_followup
      record_attempt_def note_attempt_def history_after_def attempt_of_def after_cursor_def
      empty_tstate_def locals_of_def world0_def demo_task_def demo_engine_def default_state_def
      opt_truthy_def wait_not_paused should_pause_def should_stop_def sleep_def followup_env_simps
      save_state_def put_tstate_def set_cursor_def Let_def)

theorem followups_survive_failure_witness:
  "cursor_after (after_phase followup_env demo_engine (demo_task ''T1-1'')
      [''first'', ''second'', ''third''] ''codex'' [''claude'']
      (after_cursor 0) default_state empty_tstate (locals_of empty_tstate) (world0 False False))
   = Some \<lparr>task_index = 1, phase = ''main'', after_index = 0\<rparr> \<and>
   history_after (after_phase followup_env demo_engine (demo_task ''T1-1'')
      [''first'', ''second'', ''third''] ''codex'' [''claude'']
      (after_cursor 0) default_state empty_tstate (locals_of empty_tstate) (world0 False False)) ''T1-1''
   = [(Some 0, ''codex'', True),
      (Some 1, ''codex'', False), (Some 1, ''codex'', False), (Some 1, ''claude'', False),
      (Some 2, ''codex'', True)]"
proof -
  have u: "undisturbed followup_env (world0 False False)"
    by (simp add: undisturbed_def followup_env_simps should_pause_def should_stop_def world0_def)
  have k: "known_engine ''codex''" "list_all known_engine [''claude'']"
    by (simp_all add: known_engine_def)
  have l: "last_ok_known empty_tstate"
    by (simp add: last_ok_known_def empty_tstate_def)
  have p: "phase (after_cursor 0) = ''after''"
    by (simp add: after_cursor_def)
  from followups_survive_failure [OF u k l p, of demo_engine "demo_task ''T1-1''"
      "[''first'', ''second'', ''third'']" default_state "locals_of empty_tstate"]
  have "cursor_after (after_phase followup_env demo_engine (demo_task ''T1-1'')
      [''first'', ''second'', ''third''] ''codex'' [''claude'']
      (after_cursor 0) default_state empty_tstate (locals_of empty_tstate) (world0 False False))
   = Some \<lparr>task_index = 1, phase = ''main'', after_index = 0\<rparr>"
    by (auto simp: cursor_after_def after_cursor_def)
  with followup_demo show ?thesis
    by (rule conjI [rotated])
qed

section \<open>agentflow: the engine order of a follow-up prompt\<close>

text \<open>
  C9 fails on the code. When the last engine that succeeded is the primary (the usual
  case after the MAIN step) or no engine has succeeded yet, the order of a follow-up
  prompt starts with the primary twice: \<^verbatim>\<open>[last_ok, primary_engine] + ...\<close>. A
  follow-up that fails on the primary is then attempted on the primary a second time
  before the fallback is tried.
\<close>

theorem after_order_repeats_primary:
  "after_engine_order (empty_tstate\<lparr>last_ok_engine := Some ''codex''\<rparr>) ''codex'' [''claude'']
     = [''codex'', ''codex'', ''claude''] \<and>
   after_engine_order empty_tstate ''codex'' [''claude''] = [''codex'', ''codex'', ''claude''] \<and>
   history_after (after_phase followup_env demo_engine (demo_task ''T1-1'')
      [''second''] ''codex'' [''claude'']
      (after_cursor 0) default_state (empty_tstate\<lparr>last_ok_engine := Some ''codex''\<rparr>)
      (locals_of empty_tstate) (world0 False False)) ''T1-1''
   = [(Some 0, ''codex'', False), (Some 0, ''codex'', False), (Some 0, ''claude'', False)]"
  by (simp add: after_phase.simps after_step_def after_engine_order_def rwe_codex rwe_claude
      codex_followup claude_followup snd_run_codex_followup snd_run_claude_followup
      record_attempt_def note_attempt_def history_after_def attempt_of_def after_cursor_def
      empty_tstate_def locals_of_def world0_def demo_task_def demo_engine_def default_state_def
      opt_truthy_def wait_not_paused should_pause_def should_stop_def sleep_def followup_env_simps
      save_state_def put_tstate_def set_cursor_def Let_def)

section \<open>When every backend fails the implementation step\<close>


















lemma failing_env_simps:
  "which failing_env b = True"
  "user failing_env = (\<lambda>t m. m)"
  "build_main_prompt failing_env t h = ''TASK: '' @ task_id t"
  "json_loads failing_env x = None"
  "proc failing_env n c i = Some \<lparr>po_rc = 1, po_lines = [], po_err = [], po_wrote = []\<rparr>"
  "now_stamp failing_env n = ''20260101-000000''"
  by (simp_all add: failing_env_def idle_env_def)

lemma run_process_failing:
  "run_process failing_env w c i =
     ((1, []), (sleep failing_env w)\<lparr>files := files w ++ Map.empty, spawned := spawned w @ [c]\<rparr>)"
  by (simp add: run_process_def spawn_def failing_env_simps)

lemma codex_failing:
  "fst (run_codex failing_env eng prompt rl lp lastp w) =
     \<lparr>engine = ''codex'', ok = False, exit_code = 1,
      stdout = [], assistant_text = (case files w lastp of Some t \<Rightarrow> py_strip t | None \<Rightarrow> []),
      result_session_id = None, log_path = Some lp,
      last_message_path = Some lastp, error_summary = None\<rparr>"
  by (simp add: run_codex_def run_process_failing failing_env_simps py_strip_def Let_def
      split: option.splits)

lemma claude_failing:
  "fst (run_claude failing_env eng prompt rs lp w) =
     \<lparr>engine = ''claude'', ok = False, exit_code = 1,
      stdout = [], assistant_text = [],
      result_session_id = None, log_path = Some lp,
      last_message_path = None, error_summary = None\<rparr>"
  by (simp add: run_claude_def run_process_failing failing_env_simps claude_result_def
      parse_empty py_strip_def)

lemma snd_run_codex_failing:
  "snd (run_codex failing_env eng prompt rl lp lastp w) =
     (sleep failing_env w)\<lparr>files := files w, spawned := spawned w @ [run_codex_cmd eng rl lastp]\<rparr>"
  by (simp add: run_codex_def run_process_failing failing_env_simps Let_def)

lemma snd_run_claude_failing:
  "snd (run_claude failing_env eng prompt rs lp w) =
     (sleep failing_env w)\<lparr>files := files w, spawned := spawned w @ [run_claude_cmd eng prompt rs]\<rparr>"
  by (simp add: run_claude_def run_process_failing failing_env_simps Let_def)

lemma rwe_codex_failing:
  "run_with_engine failing_env eng task loc ''codex'' prompt ph step_name w =
     Inr (fst (run_codex failing_env eng prompt (ph = ''after'' \<and> codex_resume loc)
                (app_dir eng @ ''/tasks/'' @ task_id task @ ''/'' @ ''20260101-000000'' @ ''.'' @ ''codex''
                   @ ''.'' @ ph @ ''.'' @ step_name @ ''.log'')
                (app_dir eng @ ''/tasks/'' @ task_id task @ ''/'' @ ''20260101-000000'' @ ''.'' @ ''codex''
                   @ ''.'' @ ph @ ''.'' @ step_name @ ''.last.txt'') w),
          snd (run_codex failing_env eng prompt (ph = ''after'' \<and> codex_resume loc)
                (app_dir eng @ ''/tasks/'' @ task_id task @ ''/'' @ ''20260101-000000'' @ ''.'' @ ''codex''
                   @ ''.'' @ ph @ ''.'' @ step_name @ ''.log'')
                (app_dir eng @ ''/tasks/'' @ task_id task @ ''/'' @ ''20260101-000000'' @ ''.'' @ ''codex''
                   @ ''.'' @ ph @ ''.'' @ step_name @ ''.last.txt'') w))"
  by (simp add: run_with_engine_def failing_env_simps Let_def)

lemma rwe_claude_failing:
  "run_with_engine failing_env eng task loc ''claude'' prompt ph step_name w =
     Inr (fst (run_claude failing_env eng prompt (if ph = ''after'' then claude_session loc else None)
                (app_dir eng @ ''/tasks/'' @ task_id task @ ''/'' @ ''20260101-000000'' @ ''.'' @ ''claude''
                   @ ''.'' @ ph @ ''.'' @ step_name @ ''.log'') w),
          snd (run_claude failing_env eng prompt (if ph = ''after'' then claude_session loc else None)
                (app_dir eng @ ''/tasks/'' @ task_id task @ ''/'' @ ''20260101-000000'' @ ''.'' @ ''claude''
                   @ ''.'' @ ph @ ''.'' @ step_name @ ''.log'') w))"
  by (simp add: run_with_engine_def failing_env_simps Let_def)


lemma run_task_failing_history:
  "history_after (run_task failing_env demo_engine (demo_task ''T1-1'') [''first''] ''codex'' [''claude'']
      default_state \<lparr>task_index = 0, phase = ''main'', after_index = 0\<rparr> (world0 False False)) ''T1-1''
   = [(None, ''codex'', False), (None, ''claude'', False)]"
  by (simp add: run_task_def engine_order_def main_engines_def rwe_codex_failing rwe_claude_failing
      codex_failing claude_failing snd_run_codex_failing snd_run_claude_failing
      record_attempt_def note_attempt_def history_after_def attempt_of_def
      empty_tstate_def locals_of_def world0_def demo_task_def demo_engine_def default_state_def
      opt_truthy_def ControlFiles_wait_if_paused.simps should_pause_def should_stop_def sleep_def failing_env_simps
      put_tstate_def set_cursor_def ensure_task_state_def Let_def)




section \<open>The checks on task ids\<close>













end
